theory Spec2Isabelle
  imports Complex_Main "HOL-Library.AList"
begin

section \<open>Memory manager (src/utils/memory-manager.js)\<close>

text \<open>
  JavaScript objects handed to the manager. A \<open>Blob\<close> (a \<open>File\<close> is one) has an
  identity and an immutable byte size; an \<open>ArrayBuffer\<close> has an identity and a byte
  length; these and anything else but a \<open>Blob\<close> fail the \<open>instanceof Blob\<close> test.
  JavaScript numbers are modelled as integers (byte counts) and reals (the threshold
  products).
\<close>

datatype jsobj =
    Blob (ident: nat) (blobSize: nat)
  | ArrayBuffer (ident: nat) (byteLength: nat)
  | NotABlob (ident: nat)

fun isBlob :: "jsobj \<Rightarrow> bool" where
  "isBlob (Blob _ _) = True"
| "isBlob (ArrayBuffer _ _) = False"
| "isBlob (NotABlob _) = False"

fun sizeOf :: "jsobj \<Rightarrow> int" where
  "sizeOf (Blob _ n) = int n"
| "sizeOf (ArrayBuffer _ _) = 0"
| "sizeOf (NotABlob _) = 0"

text \<open>
  A JavaScript \<open>Set\<close> iterates in insertion order: it is a list without duplicates,
  \<open>add\<close> of a present element changes nothing, \<open>delete\<close> removes the element.
\<close>

definition setAdd :: "'a \<Rightarrow> 'a list \<Rightarrow> 'a list" where
  "setAdd x xs = (if x \<in> set xs then xs else xs @ [x])"

definition setDelete :: "'a \<Rightarrow> 'a list \<Rightarrow> 'a list" where
  "setDelete x xs = removeAll x xs"

text \<open>
  The manager's fields, followed by the environment it reads and writes:
  \<open>usedJSHeapSize\<close> is \<open>performance.memory.usedJSHeapSize\<close> where the browser has it,
  \<open>imgSrcs\<close> the \<open>src\<close> attributes of the \<open>img\<close> elements of the document,
  \<open>revoked\<close> the calls of \<open>URL.revokeObjectURL\<close> made so far.
\<close>

record memoryManager =
  activeBlobs :: "jsobj list"
  objectURLs :: "string list"
  maxMemoryUsage :: int
  currentMemoryEstimate :: int
  gcThreshold :: real
  usedJSHeapSize :: "int option"
  imgSrcs :: "string list"
  revoked :: "string list"

definition getCurrentMemoryUsage :: "memoryManager \<Rightarrow> int" where
  "getCurrentMemoryUsage m =
     (case usedJSHeapSize m of Some u \<Rightarrow> u | None \<Rightarrow> currentMemoryEstimate m)"

text \<open>
  \<open>estimateMemoryRequirement\<close>: the size of a \<open>File\<close> or \<open>Blob\<close>, the byte length of
  an \<open>ArrayBuffer\<close>, 0 for anything else, times 5.5 and rounded up.
\<close>

fun fileSize :: "jsobj \<Rightarrow> int" where
  "fileSize (Blob _ n) = int n"
| "fileSize (ArrayBuffer _ n) = int n"
| "fileSize (NotABlob _) = 0"

definition estimateMemoryRequirement :: "jsobj \<Rightarrow> int" where
  "estimateMemoryRequirement file = \<lceil>real_of_int (fileSize file) * 5.5\<rceil>"

definition registerBlob :: "jsobj \<Rightarrow> memoryManager \<Rightarrow> memoryManager" where
  "registerBlob blob m =
     (if isBlob blob
      then m\<lparr>activeBlobs := setAdd blob (activeBlobs m),
              currentMemoryEstimate := currentMemoryEstimate m + sizeOf blob\<rparr>
      else m)"

definition unregisterBlob :: "jsobj \<Rightarrow> memoryManager \<Rightarrow> memoryManager" where
  "unregisterBlob blob m =
     (if blob \<in> set (activeBlobs m)
      then m\<lparr>activeBlobs := setDelete blob (activeBlobs m),
              currentMemoryEstimate := currentMemoryEstimate m - sizeOf blob\<rparr>
      else m)"

definition revokeObjectURL :: "string \<Rightarrow> memoryManager \<Rightarrow> memoryManager" where
  "revokeObjectURL url m =
     (if url \<in> set (objectURLs m)
      then m\<lparr>revoked := revoked m @ [url], objectURLs := setDelete url (objectURLs m)\<rparr>
      else m)"

text \<open>
  \<open>triggerCleanup\<close>: the loop over \<open>activeBlobs\<close> collects the blobs whose position in
  iteration order is at least \<open>keepCount\<close>, that is \<open>drop keepCount\<close>; the two
  \<open>forEach\<close> loops are folds. \<open>window.gc\<close> has no effect on the manager's state.
\<close>

definition keepCount :: "memoryManager \<Rightarrow> nat" where
  "keepCount m = nat \<lfloor>real (length (activeBlobs m)) * 0.3\<rfloor>"

definition blobsToRemove :: "memoryManager \<Rightarrow> jsobj list" where
  "blobsToRemove m = drop (keepCount m) (activeBlobs m)"

definition urlsToRevoke :: "memoryManager \<Rightarrow> string list" where
  "urlsToRevoke m = filter (\<lambda>url. url \<notin> set (imgSrcs m)) (objectURLs m)"

definition triggerCleanup :: "memoryManager \<Rightarrow> memoryManager" where
  "triggerCleanup m =
     (let m1 = fold unregisterBlob (blobsToRemove m) m
      in fold revokeObjectURL (urlsToRevoke m1) m1)"

definition hasAvailableMemory :: "int \<Rightarrow> memoryManager \<Rightarrow> bool \<times> memoryManager" where
  "hasAvailableMemory requiredMemory m =
     (let currentUsage = getCurrentMemoryUsage m;
          projected = currentUsage + requiredMemory;
          m1 = (if real_of_int projected > real_of_int (maxMemoryUsage m) * gcThreshold m
                then triggerCleanup m else m)
      in (projected < maxMemoryUsage m, m1))"

text \<open>A desktop manager as the constructor leaves it, with a ceiling of 1000 bytes.\<close>

definition newManager :: "int \<Rightarrow> memoryManager" where
  "newManager cap =
     \<lparr>activeBlobs = [], objectURLs = [], maxMemoryUsage = cap,
      currentMemoryEstimate = 0, gcThreshold = 0.8, usedJSHeapSize = None,
      imgSrcs = [], revoked = []\<rparr>"

text \<open>Ten blobs registered one after the other, the blob with identity 1 first.\<close>

definition tenBlobs :: "jsobj list" where
  "tenBlobs = map (\<lambda>i. Blob i 100) [1..<11]"

definition tenTracked :: memoryManager where
  "tenTracked = fold registerBlob tenBlobs (newManager 1000000)"

section \<open>Single-file conversion worker (src/unnamed/part_005)\<close>

text \<open>
  The worker posts \<open>{type: 'progress', progress, stage, ...}\<close> through
  \<open>sendProgress\<close>, \<open>{type: 'cancelled', ...}\<close> when it handles a \<open>cancel\<close> command,
  and one result message from the \<open>convert\<close> handler: \<open>{success: true, ...}\<close> or
  \<open>{success: false, ...}\<close>, the latter with \<open>cancelled: true\<close> when the handler
  stopped on its own cancellation check. The result messages carry no \<open>type\<close> field.
\<close>

datatype stage = Loading | Decoding | Encoding | Finalizing | Complete

datatype workerMsg =
    ProgressMsg real stage
  | CancelledMsg
  | SuccessMsg
  | FailureMsg bool

text \<open>
  The errors thrown inside the handlers: the worker's own \<open>'Conversion cancelled'\<close>
  (\<open>'Batch conversion cancelled'\<close> in the batch worker), the unsupported target type,
  and a rejection of the converter's promise.
\<close>

datatype workerError = ConversionCancelled | UnsupportedType string | ConverterError

text \<open>
  The messages the worker receives. A message whose \<open>type\<close> is neither \<open>cancel\<close> nor
  \<open>convert\<close> is \<open>OtherCmd\<close>; of a \<open>convert\<close> message the handler's control flow reads
  the target type only.
\<close>

datatype command = ConvertCmd string | CancelCmd | OtherCmd

text \<open>
  The \<open>convert\<close> branch of \<open>self.onmessage\<close> is asynchronous. It runs without
  interruption up to an \<open>await\<close>; while it waits there the worker is free and takes
  whatever comes next: another message (a \<open>cancel\<close>, or a further \<open>convert\<close>, which
  starts a second invocation of the handler beside the suspended one), a tick of a
  progress interval, or the end of the wait of a suspended invocation. The four places
  where an invocation waits are the 50 ms timer after \<open>'Reading file data...'\<close>, the
  call of the converter, the 50 ms timer after \<open>'Encoding to ...'\<close> and the 50 ms timer
  after \<open>'Optimizing output...'\<close>.
\<close>

datatype awaitPoint = ReadingFile | ConverterCall | EncodingOutput | OptimizingOutput

text \<open>
  The state of the worker: the module-level flag \<open>isCancelled\<close>, the messages posted so
  far (a history variable), the suspended invocations of the \<open>convert\<close> branch, each with
  its \<open>targetType\<close> and the place where it waits, under the number of the invocation,
  and the number of invocations started so far.
\<close>

record workerState =
  isCancelled :: bool
  outbox :: "workerMsg list"
  suspended :: "(nat \<times> string \<times> awaitPoint) list"
  invocations :: nat

text \<open>
  What happens to a worker, one event at a time: a message arrives; the timer a
  suspended invocation waits for fires; the converter's promise an invocation waits for
  is settled (\<open>True\<close>: resolved, \<open>False\<close>: rejected); the progress interval of an
  invocation that waits for the converter ticks, reading the elapsed time
  \<open>Date.now() - conversionStartTime\<close>.
\<close>

datatype workerEvent =
    Message command
  | TimerDone nat
  | ConverterDone nat bool
  | IntervalTick nat real

definition postMessage :: "workerMsg \<Rightarrow> workerState \<Rightarrow> workerState" where
  "postMessage msg w = w\<lparr>outbox := outbox w @ [msg]\<rparr>"

definition sendProgress :: "real \<Rightarrow> stage \<Rightarrow> workerState \<Rightarrow> workerState" where
  "sendProgress progress stg w = postMessage (ProgressMsg progress stg) w"

text \<open>An invocation suspends at an \<open>await\<close>, or returns.\<close>

definition suspend :: "nat \<Rightarrow> string \<Rightarrow> awaitPoint \<Rightarrow> workerState \<Rightarrow> workerState" where
  "suspend k targetType place w =
     w\<lparr>suspended := AList.update k (targetType, place) (suspended w)\<rparr>"

definition leave :: "nat \<Rightarrow> workerState \<Rightarrow> workerState" where
  "leave k w = w\<lparr>suspended := AList.delete k (suspended w)\<rparr>"

text \<open>The \<open>catch\<close> block of the \<open>convert\<close> branch.\<close>

definition catchBlock :: "workerError \<Rightarrow> workerState \<Rightarrow> workerState" where
  "catchBlock err w =
     (if err = ConversionCancelled then postMessage (FailureMsg True) w
      else postMessage (FailureMsg False) w)"

text \<open>The \<open>cancel\<close> branch of \<open>self.onmessage\<close>.\<close>

definition onCancel :: "workerState \<Rightarrow> workerState" where
  "onCancel w = postMessage CancelledMsg (w\<lparr>isCancelled := True\<rparr>)"

text \<open>The \<open>convert\<close> branch from its start to its first \<open>await\<close>.\<close>

definition onConvert :: "string \<Rightarrow> workerState \<Rightarrow> workerState" where
  "onConvert targetType w =
     (let k = invocations w;
          w1 = w\<lparr>invocations := k + 1, isCancelled := False\<rparr>;
          w2 = sendProgress 0 Loading w1
      in if isCancelled w2 then leave k (catchBlock ConversionCancelled w2)
         else suspend k targetType ReadingFile (sendProgress 10 Loading w2))"

text \<open>From the first timer to the call of the converter.\<close>

definition afterReading :: "nat \<Rightarrow> string \<Rightarrow> workerState \<Rightarrow> workerState" where
  "afterReading k targetType w =
     (if isCancelled w then leave k (catchBlock ConversionCancelled w)
      else let w1 = sendProgress 20 Loading w;
               w2 = sendProgress 20 Decoding w1
           in if isCancelled w2 then leave k (catchBlock ConversionCancelled w2)
              else if targetType = ''jpeg'' \<or> targetType = ''png''
              then suspend k targetType ConverterCall w2
              else leave k (catchBlock (UnsupportedType targetType) w2))"

text \<open>The callback of \<open>setInterval\<close>.\<close>

definition onInterval :: "real \<Rightarrow> workerState \<Rightarrow> workerState" where
  "onInterval elapsed w =
     (if \<not> isCancelled w then sendProgress (min 50 (20 + elapsed / 100)) Decoding w else w)"

text \<open>From the settling of the converter's promise to the second timer.\<close>

definition afterConverter :: "nat \<Rightarrow> string \<Rightarrow> bool \<Rightarrow> workerState \<Rightarrow> workerState" where
  "afterConverter k targetType resolved w =
     (if \<not> resolved then leave k (catchBlock ConverterError w)
      else if isCancelled w then leave k (catchBlock ConversionCancelled w)
      else suspend k targetType EncodingOutput
             (sendProgress 60 Encoding (sendProgress 60 Decoding w)))"

text \<open>From the second timer to the third.\<close>

definition afterEncoding :: "nat \<Rightarrow> string \<Rightarrow> workerState \<Rightarrow> workerState" where
  "afterEncoding k targetType w =
     (if isCancelled w then leave k (catchBlock ConversionCancelled w)
      else suspend k targetType OptimizingOutput (sendProgress 80 Encoding w))"

text \<open>From the third timer to the end.\<close>

definition afterOptimizing :: "nat \<Rightarrow> workerState \<Rightarrow> workerState" where
  "afterOptimizing k w =
     (if isCancelled w then leave k (catchBlock ConversionCancelled w)
      else let w1 = sendProgress 90 Encoding w;
               w2 = sendProgress 90 Finalizing w1
           in if isCancelled w2 then leave k (catchBlock ConversionCancelled w2)
              else leave k (postMessage SuccessMsg (sendProgress 100 Complete w2)))"

definition onmessage :: "command \<Rightarrow> workerState \<Rightarrow> workerState" where
  "onmessage c w =
     (case c of
        CancelCmd \<Rightarrow> onCancel w
      | ConvertCmd targetType \<Rightarrow> onConvert targetType w
      | OtherCmd \<Rightarrow> w)"

text \<open>
  One event. An event for an invocation that does not wait at the matching place (a
  timer for an invocation that waits for the converter, say) cannot happen, and leaves
  the worker as it is.
\<close>

definition workerStep :: "workerEvent \<Rightarrow> workerState \<Rightarrow> workerState" where
  "workerStep ev w =
     (case ev of
        Message c \<Rightarrow> onmessage c w
      | TimerDone k \<Rightarrow>
          (case map_of (suspended w) k of
             Some (targetType, ReadingFile) \<Rightarrow> afterReading k targetType w
           | Some (targetType, EncodingOutput) \<Rightarrow> afterEncoding k targetType w
           | Some (targetType, OptimizingOutput) \<Rightarrow> afterOptimizing k w
           | _ \<Rightarrow> w)
      | ConverterDone k resolved \<Rightarrow>
          (case map_of (suspended w) k of
             Some (targetType, ConverterCall) \<Rightarrow> afterConverter k targetType resolved w
           | _ \<Rightarrow> w)
      | IntervalTick k elapsed \<Rightarrow>
          (case map_of (suspended w) k of
             Some (targetType, ConverterCall) \<Rightarrow> onInterval elapsed w
           | _ \<Rightarrow> w))"

definition workerRun :: "workerEvent list \<Rightarrow> workerState \<Rightarrow> workerState" where
  "workerRun evs w = fold workerStep evs w"

definition freshWorker :: workerState where
  "freshWorker = \<lparr>isCancelled = False, outbox = [], suspended = [], invocations = 0\<rparr>"

text \<open>
  The terminal messages: \<open>cancelled\<close> and the two result messages (on \<open>cancelled\<close> the
  queue releases the worker, \<open>handleWorkerMessage\<close> and \<open>handleCancellation\<close>).
\<close>

fun isTerminal :: "workerMsg \<Rightarrow> bool" where
  "isTerminal (ProgressMsg p s) = False"
| "isTerminal CancelledMsg = True"
| "isTerminal SuccessMsg = True"
| "isTerminal (FailureMsg c) = True"

text \<open>
  A conversion to JPEG that receives \<open>cancel\<close> while it waits for its first timer.
\<close>

definition cancelledEarly :: "workerEvent list" where
  "cancelledEarly = [Message (ConvertCmd ''jpeg''), Message CancelCmd, TimerDone 0]"

text \<open>
  A conversion is cancelled while it waits for its first timer, and before the timer
  fires the worker is given the next conversion; then the timer of the first invocation
  fires.
\<close>

definition cancelledThenNextConversion :: "workerEvent list" where
  "cancelledThenNextConversion =
     [Message (ConvertCmd ''jpeg''), Message CancelCmd, Message (ConvertCmd ''png''),
      TimerDone 0]"

text \<open>A conversion that nothing disturbs, with two ticks of its progress interval.\<close>

definition undisturbed :: "workerEvent list" where
  "undisturbed = [Message (ConvertCmd ''jpeg''), TimerDone 0, IntervalTick 0 100,
     IntervalTick 0 200, ConverterDone 0 True, TimerDone 0, TimerDone 0]"

section \<open>Batch conversion worker (src/workers/batch-converter.worker.js)\<close>

text \<open>
  The percentage of a \<open>batch-progress\<close> message sent for a file is
  \<open>Math.min(100, (fileIndex / totalFiles) * 100 + fileProgress / totalFiles)\<close>, computed
  in floating point from \<open>batchState.totalFiles\<close> as it is when the message is sent. The
  message is kept with the three numbers the percentage is computed from; the
  percentages 0 and 100 sent outside a file are literals.
\<close>

datatype percentage = Literal nat | OfFile nat nat nat

text \<open>
  The trace of a batch worker. The messages it posts: \<open>batch-progress\<close> with its
  percentage and \<open>currentFile\<close>, \<open>batch-cancelled\<close> with the \<open>results\<close> and \<open>errors\<close> it
  carries, \<open>batch-complete\<close> with \<open>results\<close>, \<open>errors\<close> and \<open>summary.totalFiles\<close>. And two
  marks that are not messages: \<open>StartFile k i name\<close> when invocation \<open>k\<close> of the
  \<open>convert-batch\<close> branch calls \<open>convertSingleFile\<close> for the file at index \<open>i\<close>, and
  \<open>CallConverter k name\<close> when it calls the converter for that file. A file is
  known by its name; a result is the name of the converted file, an error the name of
  the file with the error thrown.
\<close>

datatype batchEvent =
    BatchProgress percentage string
  | BatchCancelled "string list" "(string \<times> workerError) list"
  | BatchComplete "string list" "(string \<times> workerError) list" nat
  | StartFile nat nat string
  | CallConverter nat string

text \<open>The module-level variable \<open>batchState\<close> (without \<open>startTime\<close>).\<close>

record batchState =
  bIsCancelled :: bool
  currentFileIndex :: nat
  totalFiles :: nat
  results :: "string list"
  errors :: "(string \<times> workerError) list"
  filesProcessed :: nat

datatype batchCommand = ConvertBatchCmd "string list" string | CancelBatchCmd | OtherBatchCmd

text \<open>
  An invocation of the \<open>convert-batch\<close> branch waits inside \<open>convertSingleFile\<close>: at the
  50 ms timer after \<open>'Starting conversion of ...'\<close>, at the call of the converter, or at
  the 50 ms timer after \<open>'Encoding ...'\<close>. Suspended, it keeps its own \<open>files\<close> and
  \<open>targetType\<close>, the index \<open>i\<close> of its loop and the \<open>fileName\<close> of
  \<open>convertSingleFile\<close>; \<open>batchState\<close> it shares with every other invocation.
\<close>

datatype batchAwait = LoadingWait | ConverterWait | EncodingWait

record batchHandler =
  hFiles :: "string list"
  hTargetType :: string
  hIndex :: nat
  hFileName :: string
  hAt :: batchAwait

record batchWorker =
  state :: batchState
  waiting :: "(nat \<times> batchHandler) list"
  handlersStarted :: nat
  trace :: "batchEvent list"

datatype batchWorkerEvent =
    BatchMessage batchCommand
  | BatchTimerDone nat
  | BatchConverterDone nat bool

definition record_event :: "batchEvent \<Rightarrow> batchWorker \<Rightarrow> batchWorker" where
  "record_event e w = w\<lparr>trace := trace w @ [e]\<rparr>"

definition calculateBatchProgress :: "batchWorker \<Rightarrow> nat \<Rightarrow> nat \<Rightarrow> percentage" where
  "calculateBatchProgress w fileIndex fileProgress =
     OfFile fileIndex fileProgress (totalFiles (state w))"

definition sendBatchProgress :: "percentage \<Rightarrow> string \<Rightarrow> batchWorker \<Rightarrow> batchWorker" where
  "sendBatchProgress progress currentFile w = record_event (BatchProgress progress currentFile) w"

text \<open>The \<open>cancel-batch\<close> branch of \<open>self.onmessage\<close>.\<close>

definition onCancelBatch :: "batchWorker \<Rightarrow> batchWorker" where
  "onCancelBatch w =
     (let w1 = w\<lparr>state := (state w)\<lparr>bIsCancelled := True\<rparr>\<rparr>
      in record_event (BatchCancelled (results (state w1)) (errors (state w1))) w1)"

text \<open>The \<open>catch\<close> block of \<open>convertSingleFile\<close>; the caller then pushes no result.\<close>

definition catchFile :: "string \<Rightarrow> workerError \<Rightarrow> batchWorker \<Rightarrow> batchWorker" where
  "catchFile fileName err w =
     w\<lparr>state := (state w)\<lparr>errors := errors (state w) @ [(fileName, err)]\<rparr>\<rparr>"

text \<open>What follows the \<open>for\<close> loop, and the end of the invocation.\<close>

definition completeBatch :: "nat \<Rightarrow> batchWorker \<Rightarrow> batchWorker" where
  "completeBatch k w =
     (let w1 = (if \<not> bIsCancelled (state w)
                then let w2 = sendBatchProgress (Literal 100) [] w
                     in record_event (BatchComplete (results (state w2)) (errors (state w2))
                                        (totalFiles (state w2))) w2
                else w)
      in w1\<lparr>waiting := AList.delete k (waiting w1)\<rparr>)"

text \<open>
  The \<open>for\<close> loop of invocation \<open>k\<close> from the head of its pass for index \<open>i\<close>, where
  \<open>remaining\<close> are the files from index \<open>i\<close> on, up to the next \<open>await\<close>: the test of
  \<open>isCancelled\<close>, then \<open>convertSingleFile\<close> up to its first timer. Were the
  cancellation check of \<open>convertSingleFile\<close> before that timer to throw, the loop would
  go on to the next index.
\<close>

fun processFiles ::
  "nat \<Rightarrow> string list \<Rightarrow> string \<Rightarrow> nat \<Rightarrow> string list \<Rightarrow> batchWorker \<Rightarrow> batchWorker" where
  "processFiles k files targetType i [] w = completeBatch k w"
| "processFiles k files targetType i (fileName # remaining) w =
     (if bIsCancelled (state w) then completeBatch k w
      else let w1 = w\<lparr>state := (state w)\<lparr>currentFileIndex := i\<rparr>\<rparr>;
               w2 = record_event (StartFile k i fileName) w1;
               w3 = sendBatchProgress (calculateBatchProgress w2 i 0) fileName w2
           in if bIsCancelled (state w3)
              then processFiles k files targetType (i + 1) remaining
                     (catchFile fileName ConversionCancelled w3)
              else w3\<lparr>waiting := AList.update k
                        \<lparr>hFiles = files, hTargetType = targetType, hIndex = i,
                         hFileName = fileName, hAt = LoadingWait\<rparr> (waiting w3)\<rparr>)"

text \<open>The loop goes on with the index after that of the handler.\<close>

definition nextFile :: "nat \<Rightarrow> batchHandler \<Rightarrow> batchWorker \<Rightarrow> batchWorker" where
  "nextFile k h w =
     processFiles k (hFiles h) (hTargetType h) (hIndex h + 1) (drop (hIndex h + 1) (hFiles h)) w"

definition waitAt :: "nat \<Rightarrow> batchHandler \<Rightarrow> batchAwait \<Rightarrow> batchWorker \<Rightarrow> batchWorker" where
  "waitAt k h place w = w\<lparr>waiting := AList.update k (h\<lparr>hAt := place\<rparr>) (waiting w)\<rparr>"

text \<open>\<open>convertSingleFile\<close> from its first timer to the call of the converter.\<close>

definition afterLoading :: "nat \<Rightarrow> batchHandler \<Rightarrow> batchWorker \<Rightarrow> batchWorker" where
  "afterLoading k h w =
     (let fileName = hFileName h;
          w1 = sendBatchProgress (calculateBatchProgress w (hIndex h) 20) fileName w
      in if bIsCancelled (state w1) then nextFile k h (catchFile fileName ConversionCancelled w1)
         else let w2 = sendBatchProgress (calculateBatchProgress w1 (hIndex h) 40) fileName w1
              in if hTargetType h = ''jpeg'' \<or> hTargetType h = ''png''
                 then waitAt k h ConverterWait (record_event (CallConverter k fileName) w2)
                 else nextFile k h (catchFile fileName (UnsupportedType (hTargetType h)) w2))"

text \<open>From the settling of the converter's promise to the second timer.\<close>

definition afterDecoding :: "nat \<Rightarrow> batchHandler \<Rightarrow> bool \<Rightarrow> batchWorker \<Rightarrow> batchWorker" where
  "afterDecoding k h resolved w =
     (let fileName = hFileName h
      in if \<not> resolved then nextFile k h (catchFile fileName ConverterError w)
         else if bIsCancelled (state w)
         then nextFile k h (catchFile fileName ConversionCancelled w)
         else waitAt k h EncodingWait
                (sendBatchProgress (calculateBatchProgress w (hIndex h) 70) fileName w))"

text \<open>
  From the second timer to the return of \<open>convertSingleFile\<close>, and the push of the
  result by the loop.
\<close>

definition afterEncodingFile :: "nat \<Rightarrow> batchHandler \<Rightarrow> batchWorker \<Rightarrow> batchWorker" where
  "afterEncodingFile k h w =
     (let fileName = hFileName h;
          w1 = sendBatchProgress (calculateBatchProgress w (hIndex h) 90) fileName w;
          w2 = sendBatchProgress (calculateBatchProgress w1 (hIndex h) 100) fileName w1;
          w3 = w2\<lparr>state := (state w2)\<lparr>filesProcessed := filesProcessed (state w2) + 1\<rparr>\<rparr>;
          w4 = w3\<lparr>state := (state w3)\<lparr>results := results (state w3) @ [fileName]\<rparr>\<rparr>
      in nextFile k h w4)"

text \<open>The \<open>convert-batch\<close> branch from its start to its first \<open>await\<close>.\<close>

definition onConvertBatch :: "string list \<Rightarrow> string \<Rightarrow> batchWorker \<Rightarrow> batchWorker" where
  "onConvertBatch files targetType w =
     (let k = handlersStarted w;
          w1 = w\<lparr>handlersStarted := k + 1,
                 state := \<lparr>bIsCancelled = False, currentFileIndex = 0,
                           totalFiles = length files, results = [], errors = [],
                           filesProcessed = 0\<rparr>\<rparr>;
          w2 = sendBatchProgress (Literal 0) [] w1
      in processFiles k files targetType 0 files w2)"

definition onBatchMessage :: "batchCommand \<Rightarrow> batchWorker \<Rightarrow> batchWorker" where
  "onBatchMessage c w =
     (case c of
        CancelBatchCmd \<Rightarrow> onCancelBatch w
      | ConvertBatchCmd files targetType \<Rightarrow> onConvertBatch files targetType w
      | OtherBatchCmd \<Rightarrow> w)"

definition batchStep :: "batchWorkerEvent \<Rightarrow> batchWorker \<Rightarrow> batchWorker" where
  "batchStep ev w =
     (case ev of
        BatchMessage c \<Rightarrow> onBatchMessage c w
      | BatchTimerDone k \<Rightarrow>
          (case map_of (waiting w) k of
             None \<Rightarrow> w
           | Some h \<Rightarrow>
               (case hAt h of
                  LoadingWait \<Rightarrow> afterLoading k h w
                | EncodingWait \<Rightarrow> afterEncodingFile k h w
                | ConverterWait \<Rightarrow> w))
      | BatchConverterDone k resolved \<Rightarrow>
          (case map_of (waiting w) k of
             None \<Rightarrow> w
           | Some h \<Rightarrow>
               (case hAt h of
                  ConverterWait \<Rightarrow> afterDecoding k h resolved w
                | _ \<Rightarrow> w)))"

definition batchRun :: "batchWorkerEvent list \<Rightarrow> batchWorker \<Rightarrow> batchWorker" where
  "batchRun evs w = fold batchStep evs w"

text \<open>The worker as the module leaves it when loaded.\<close>

definition idleBatchWorker :: batchWorker where
  "idleBatchWorker =
     \<lparr>state = \<lparr>bIsCancelled = False, currentFileIndex = 0, totalFiles = 0, results = [],
               errors = [], filesProcessed = 0\<rparr>,
      waiting = [], handlersStarted = 0, trace = []\<rparr>"

text \<open>
  A batch of three files is cancelled while its first file waits for the first timer,
  and the worker is at once given the next batch, of one file; then each of the two
  invocations goes on when what it waits for is there: the timers in the order they
  were set, the converter for the first batch's file, the converter for the second
  batch's file, the second timer of the first invocation.
\<close>

definition firstBatch :: "string list" where
  "firstBatch = [''a.heic'', ''b.heic'', ''c.heic'']"

definition cancelledThenNextBatch :: "batchWorkerEvent list" where
  "cancelledThenNextBatch =
     [BatchMessage (ConvertBatchCmd firstBatch ''jpeg''),
      BatchMessage CancelBatchCmd,
      BatchMessage (ConvertBatchCmd [''d.heic''] ''jpeg''),
      BatchTimerDone 0, BatchTimerDone 1,
      BatchConverterDone 0 True, BatchConverterDone 1 True,
      BatchTimerDone 0]"

text \<open>
  A batch of three files is cancelled while its first file waits for its second timer,
  and no other batch follows.
\<close>

definition cancelledAlone :: "batchWorkerEvent list" where
  "cancelledAlone =
     [BatchMessage (ConvertBatchCmd firstBatch ''jpeg''),
      BatchTimerDone 0, BatchConverterDone 0 True,
      BatchMessage CancelBatchCmd,
      BatchTimerDone 0]"

section \<open>Conversion queue (src/unnamed/part_006, class ConversionQueue)\<close>

text \<open>
  Task identifiers: \<open>generateTaskId\<close> builds a string from the time and a random
  number; here the identifiers are the natural numbers in the order they are issued, so
  they are pairwise distinct and a task submitted earlier has the smaller identifier.
  A task object is reached through its identifier (\<open>tasks\<close>), a worker object through a
  reference (\<open>workers\<close>), so that a change of \<open>task.retries\<close> or
  \<open>worker.metadata.busy\<close> is seen through the queue, the map of active workers and
  the pending timers alike, as in the source.
\<close>

type_synonym taskId = nat
type_synonym workerRef = nat

datatype taskType = Single | Batch

datatype taskStatus = Queued | Processing

text \<open>
  A file as \<open>addFile\<close> inspects it: \<open>fname\<close> is \<open>None\<close> when \<open>file.name\<close> is missing
  or not a string, \<open>fsize\<close> is \<open>None\<close> when \<open>file.size\<close> is not a number. The
  \<open>options\<close> object with the three fields the queue reads, each possibly absent.
\<close>

record fileObj =
  fname :: "string option"
  fsize :: "int option"

record addOptions =
  targetTypeOpt :: "string option"
  qualityOpt :: "int option"
  priorityOpt :: "int option"

record task =
  tType :: taskType
  tFiles :: "fileObj list"
  tTargetType :: string
  tQuality :: int
  retries :: nat
  status :: taskStatus
  priority :: int

record workerMeta =
  wType :: taskType
  busy :: bool
  wTaskId :: "taskId option"
  tasksProcessed :: nat

datatype queueError =
    QueueDestroyed | NotAFile | NoValidName | NoValidSize | InvalidTargetType
  | FilesEmpty | BatchTooLarge

text \<open>
  What the queue does to the outside: the events it emits to subscribers, the commands it
  posts to workers, the timers it sets, and the calls it makes on its progress tracker
  (the class \<open>ProgressTracker\<close> with \<open>createTask\<close>, \<open>updateProgress\<close>, \<open>completeTask\<close>,
  \<open>failTask\<close>, \<open>cancelTask\<close> is not among the sources; the calls are recorded, and
  taken to return normally). The handlers that subscribers register for the events are
  taken not to call the queue.
\<close>

datatype queueEvent =
    EvProgress taskId real
  | EvComplete taskId
  | EvError taskId nat
  | EvCancelled taskId
  | EvQueuePaused
  | EvQueueResumed

datatype workerCommand =
    Convert "fileObj list" string int
  | ConvertBatch "fileObj list" string int
  | Cancel
  | CancelBatch

datatype progressNote = StartingConversion | Retrying nat nat | FromWorker

datatype trackerCall =
    CreateTask taskId
  | UpdateProgress taskId real progressNote
  | CompleteTask taskId
  | FailTask taskId
  | CancelTaskCall taskId
  | ResetTracker

datatype timer = RequeueTimer nat taskId | TeardownTimer

datatype workerEventType =
    MsgProgress real | MsgBatchProgress real | MsgSuccess | MsgBatchComplete
  | MsgCancelled | MsgBatchCancelled | MsgError | MsgBatchError | MsgOther

text \<open>
  The state of a queue. \<open>activeWorkers\<close> is the JavaScript \<open>Map\<close> from task identifier to
  \<open>{task, worker}\<close>, kept as an association list in insertion order (\<open>set\<close> is
  \<open>AList.update\<close>, \<open>delete\<close> is \<open>AList.delete\<close>, \<open>get\<close> is \<open>map_of\<close>, \<open>size\<close>
  is \<open>length\<close>). \<open>emitted\<close>, \<open>posted\<close>, \<open>trackerCalls\<close> and \<open>terminated\<close> record what
  the queue has done to the outside so far. \<open>busyWrites\<close> is a history variable: for
  each worker, the values written to \<open>metadata.busy\<close> by \<open>executeTask\<close> and
  \<open>releaseWorker\<close>, oldest first.
\<close>

record queueState =
  maxConcurrent :: nat
  maxRetries :: nat
  retryDelay :: nat
  maxWorkers :: nat
  queue :: "taskId list"
  tasks :: "taskId \<Rightarrow> task"
  nextTaskId :: nat
  activeWorkers :: "(taskId \<times> workerRef) list"
  workers :: "workerRef \<Rightarrow> workerMeta"
  nextWorker :: nat
  workerPool :: "workerRef list"
  batchWorkerPool :: "workerRef list"
  isPaused :: bool
  isDestroyed :: bool
  totalTasksProcessed :: nat
  totalTasksFailed :: nat
  totalTasksCancelled :: nat
  timers :: "timer list"
  emitted :: "queueEvent list"
  posted :: "(workerRef \<times> workerCommand) list"
  trackerCalls :: "trackerCall list"
  terminated :: "workerRef list"
  suspendedCalls :: nat
  busyWrites :: "workerRef \<Rightarrow> bool list"

definition emit :: "queueEvent \<Rightarrow> queueState \<Rightarrow> queueState" where
  "emit e s = s\<lparr>emitted := emitted s @ [e]\<rparr>"

definition track :: "trackerCall \<Rightarrow> queueState \<Rightarrow> queueState" where
  "track c s = s\<lparr>trackerCalls := trackerCalls s @ [c]\<rparr>"

definition postToWorker :: "workerRef \<Rightarrow> workerCommand \<Rightarrow> queueState \<Rightarrow> queueState" where
  "postToWorker w c s = s\<lparr>posted := posted s @ [(w, c)]\<rparr>"

definition poolOf :: "taskType \<Rightarrow> queueState \<Rightarrow> workerRef list" where
  "poolOf typ s = (if typ = Batch then batchWorkerPool s else workerPool s)"

text \<open>
  \<open>createWorker\<close>. The construction \<open>new Worker(...)\<close> is taken to succeed, as it does
  in a browser that has workers: the \<open>catch\<close> that counts failed constructions and
  falls back to a mock worker is left out (a mock worker answers a conversion with an
  \<open>error\<close> message, which any worker may send), and the only exception left is the one
  for a destroyed queue. The type passed is always \<open>'single'\<close> or \<open>'batch'\<close>.
\<close>

definition createWorker :: "taskType \<Rightarrow> queueState \<Rightarrow> queueError + (workerRef \<times> queueState)" where
  "createWorker typ s =
     (if isDestroyed s then Inl QueueDestroyed
      else let w = nextWorker s;
               s1 = s\<lparr>nextWorker := w + 1,
                       workers := (workers s)(w := \<lparr>wType = typ, busy = False,
                                                    wTaskId = None, tasksProcessed = 0\<rparr>)\<rparr>;
               s2 = (if typ = Batch then s1\<lparr>batchWorkerPool := batchWorkerPool s1 @ [w]\<rparr>
                     else s1\<lparr>workerPool := workerPool s1 @ [w]\<rparr>)
           in Inr (w, s2))"

definition getAvailableWorker ::
  "taskType \<Rightarrow> queueState \<Rightarrow> queueError + (workerRef option \<times> queueState)" where
  "getAvailableWorker typ s =
     (let pool = poolOf typ s
      in case find (\<lambda>w. \<not> busy (workers s w)) pool of
           Some w \<Rightarrow> Inr (Some w, s)
         | None \<Rightarrow>
             if length pool < maxWorkers s
             then (case createWorker typ s of
                     Inl e \<Rightarrow> Inl e
                   | Inr (w, s1) \<Rightarrow> Inr (Some w, s1))
             else Inr (None, s))"

text \<open>
  \<open>executeTask\<close>. \<open>worker.postMessage\<close> is taken not to throw (the files are taken to
  be cloneable), so the \<open>catch\<close> around it is left out.
\<close>

definition executeTask :: "taskId \<Rightarrow> workerRef \<Rightarrow> queueState \<Rightarrow> queueState" where
  "executeTask t w s =
     (let s1 = s\<lparr>workers := (workers s)(w := (workers s w)\<lparr>busy := True, wTaskId := Some t\<rparr>),
                  busyWrites := (busyWrites s)(w := busyWrites s w @ [True])\<rparr>;
          s2 = s1\<lparr>activeWorkers := AList.update t w (activeWorkers s1)\<rparr>;
          s3 = s2\<lparr>tasks := (tasks s2)(t := (tasks s2 t)\<lparr>status := Processing\<rparr>)\<rparr>;
          s4 = track (UpdateProgress t 0 StartingConversion) s3;
          tk = tasks s4 t
      in if tType tk = Batch
         then postToWorker w (ConvertBatch (tFiles tk) (tTargetType tk) (tQuality tk)) s4
         else postToWorker w (Convert (tFiles tk) (tTargetType tk) (tQuality tk)) s4)"

text \<open>
  \<open>processQueue\<close> is asynchronous. A call runs the guard at its head and the \<open>while\<close>
  loop up to the \<open>await\<close> on \<open>executeTask\<close> (which itself never waits); there the call
  is suspended, and the rest of the loop runs later, pass by pass, each pass again up to
  that \<open>await\<close>. \<open>suspendedCalls\<close> counts the calls suspended there.

  One pass, \<open>loopPass\<close>: the loop condition, the shift, \<open>getAvailableWorker\<close>,
  \<open>executeTask\<close>. Its first component says whether the pass has ended at the \<open>await\<close>
  (the loop goes on later) or the loop is over. An exception of \<open>getAvailableWorker\<close>
  rejects the promise of \<open>processQueue\<close> and ends the loop with the task already
  shifted.
\<close>

definition loopCondition :: "queueState \<Rightarrow> bool" where
  "loopCondition s =
     (queue s \<noteq> [] \<and> length (activeWorkers s) < maxConcurrent s \<and>
      \<not> isPaused s \<and> \<not> isDestroyed s)"

definition loopPass :: "queueState \<Rightarrow> bool \<times> queueState" where
  "loopPass s =
     (if loopCondition s
      then let t = hd (queue s);
               s1 = s\<lparr>queue := tl (queue s)\<rparr>
           in case getAvailableWorker (tType (tasks s1 t)) s1 of
                Inl e \<Rightarrow> (False, s1)
              | Inr (None, s2) \<Rightarrow> (False, s2\<lparr>queue := t # queue s2\<rparr>)
              | Inr (Some w, s2) \<Rightarrow> (True, executeTask t w s2)
      else (False, s))"

definition suspendLoop :: "bool \<times> queueState \<Rightarrow> queueState" where
  "suspendLoop r =
     (if fst r then (snd r)\<lparr>suspendedCalls := suspendedCalls (snd r) + 1\<rparr> else snd r)"

definition processQueue :: "queueState \<Rightarrow> queueState" where
  "processQueue s = (if isPaused s \<or> isDestroyed s then s else suspendLoop (loopPass s))"

text \<open>A suspended call of \<open>processQueue\<close> goes on with the next pass of its loop.\<close>

definition resumeLoop :: "queueState \<Rightarrow> queueState" where
  "resumeLoop s =
     (if suspendedCalls s = 0 then s
      else suspendLoop (loopPass (s\<lparr>suspendedCalls := suspendedCalls s - 1\<rparr>)))"

definition releaseWorker :: "taskId \<Rightarrow> queueState \<Rightarrow> queueState" where
  "releaseWorker t s =
     (case map_of (activeWorkers s) t of
        None \<Rightarrow> s
      | Some w \<Rightarrow>
          s\<lparr>workers := (workers s)(w := (workers s w)\<lparr>busy := False, wTaskId := None\<rparr>),
            busyWrites := (busyWrites s)(w := busyWrites s w @ [False]),
            activeWorkers := AList.delete t (activeWorkers s)\<rparr>)"

text \<open>
  \<open>handleTaskError\<close>: the branch that retries sets the timer whose callback is
  \<open>requeue\<close> below, and does not release the worker.
\<close>

definition handleTaskError :: "taskId \<Rightarrow> queueState \<Rightarrow> queueState" where
  "handleTaskError t s =
     (let s1 = s\<lparr>tasks := (tasks s)(t := (tasks s t)\<lparr>retries := retries (tasks s t) + 1\<rparr>)\<rparr>;
          n = retries (tasks s1 t)
      in if n < maxRetries s1
         then let s2 = s1\<lparr>timers := timers s1 @ [RequeueTimer (retryDelay s1 * n) t]\<rparr>
              in track (UpdateProgress t 0 (Retrying (n + 1) (maxRetries s2))) s2
         else let s2 = s1\<lparr>totalTasksFailed := totalTasksFailed s1 + 1\<rparr>;
                  s3 = track (FailTask t) s2;
                  s4 = releaseWorker t s3;
                  s5 = emit (EvError t n) s4
              in processQueue s5)"

definition requeue :: "taskId \<Rightarrow> queueState \<Rightarrow> queueState" where
  "requeue t s =
     (if \<not> isDestroyed s
      then let s1 = s\<lparr>tasks := (tasks s)(t := (tasks s t)\<lparr>status := Queued\<rparr>)\<rparr>;
               s2 = s1\<lparr>queue := t # queue s1\<rparr>
           in processQueue s2
      else s)"

definition handleProgress :: "taskId \<Rightarrow> real \<Rightarrow> queueState \<Rightarrow> queueState" where
  "handleProgress t progress s =
     emit (EvProgress t progress) (track (UpdateProgress t progress FromWorker) s)"

definition bumpTasksProcessed :: "taskId \<Rightarrow> queueState \<Rightarrow> queueState" where
  "bumpTasksProcessed t s =
     (case map_of (activeWorkers s) t of
        None \<Rightarrow> s
      | Some w \<Rightarrow>
          s\<lparr>workers := (workers s)(w := (workers s w)\<lparr>tasksProcessed :=
                          tasksProcessed (workers s w) + 1\<rparr>)\<rparr>)"

text \<open>\<open>handleSuccess\<close> and \<open>handleBatchComplete\<close> differ in the payload they pass on only.\<close>

definition handleSuccess :: "taskId \<Rightarrow> queueState \<Rightarrow> queueState" where
  "handleSuccess t s =
     (let s1 = s\<lparr>totalTasksProcessed := totalTasksProcessed s + 1\<rparr>;
          s2 = bumpTasksProcessed t s1;
          s3 = track (CompleteTask t) s2;
          s4 = releaseWorker t s3;
          s5 = emit (EvComplete t) s4
      in processQueue s5)"

definition handleCancellation :: "taskId \<Rightarrow> queueState \<Rightarrow> queueState" where
  "handleCancellation t s =
     (let s1 = s\<lparr>totalTasksCancelled := totalTasksCancelled s + 1\<rparr>;
          s2 = track (CancelTaskCall t) s1;
          s3 = releaseWorker t s2;
          s4 = emit (EvCancelled t) s3
      in processQueue s4)"

definition handleWorkerMessage :: "workerRef \<Rightarrow> workerEventType \<Rightarrow> queueState \<Rightarrow> queueState" where
  "handleWorkerMessage w msg s =
     (case wTaskId (workers s w) of
        None \<Rightarrow> s
      | Some t \<Rightarrow>
          (case map_of (activeWorkers s) t of
             None \<Rightarrow> s
           | Some _ \<Rightarrow>
               (case msg of
                  MsgProgress p \<Rightarrow> handleProgress t p s
                | MsgBatchProgress p \<Rightarrow> handleProgress t p s
                | MsgSuccess \<Rightarrow> handleSuccess t s
                | MsgBatchComplete \<Rightarrow> handleSuccess t s
                | MsgCancelled \<Rightarrow> handleCancellation t s
                | MsgBatchCancelled \<Rightarrow> handleCancellation t s
                | MsgError \<Rightarrow> handleTaskError t s
                | MsgBatchError \<Rightarrow> handleTaskError t s
                | MsgOther \<Rightarrow> s)))"

text \<open>
  \<open>replaceWorker\<close>; when \<open>createWorker\<close> throws (destroyed queue) the worker has already
  been removed from its pool.
\<close>

definition replaceWorker :: "workerRef \<Rightarrow> queueState \<Rightarrow> queueState" where
  "replaceWorker w s =
     (let typ = wType (workers s w)
      in if w \<in> set (poolOf typ s)
         then let s1 = s\<lparr>terminated := terminated s @ [w]\<rparr>;
                  s2 = (if typ = Batch
                        then s1\<lparr>batchWorkerPool := remove1 w (batchWorkerPool s1)\<rparr>
                        else s1\<lparr>workerPool := remove1 w (workerPool s1)\<rparr>)
              in case createWorker typ s2 of Inl e \<Rightarrow> s2 | Inr (w', s3) \<Rightarrow> s3
         else s)"

text \<open>
  \<open>handleWorkerError\<close>; \<open>isEvent\<close> says whether the value passed is an \<open>Event\<close>, for
  which the handler returns at once.
\<close>

definition handleWorkerError :: "workerRef \<Rightarrow> bool \<Rightarrow> queueState \<Rightarrow> queueState" where
  "handleWorkerError w isEvent s =
     (if isEvent then s
      else let s1 = (case wTaskId (workers s w) of
                       None \<Rightarrow> s
                     | Some t \<Rightarrow>
                         (case map_of (activeWorkers s) t of
                            None \<Rightarrow> s
                          | Some _ \<Rightarrow> handleTaskError t s))
           in replaceWorker w s1)"

definition cancelCommandFor :: "taskId \<Rightarrow> queueState \<Rightarrow> workerCommand" where
  "cancelCommandFor t s = (if tType (tasks s t) = Batch then CancelBatch else Cancel)"

definition cancelTask :: "taskId \<Rightarrow> queueState \<Rightarrow> bool \<times> queueState" where
  "cancelTask t s =
     (if t \<in> set (queue s)
      then let s1 = s\<lparr>queue := remove1 t (queue s)\<rparr>;
               s2 = track (CancelTaskCall t) s1;
               s3 = emit (EvCancelled t) s2
           in (True, s3)
      else case map_of (activeWorkers s) t of
             Some w \<Rightarrow> (True, postToWorker w (cancelCommandFor t s) s)
           | None \<Rightarrow> (False, s))"

definition cancelAll :: "queueState \<Rightarrow> queueState" where
  "cancelAll s =
     (let s1 = fold (\<lambda>t st. emit (EvCancelled t) (track (CancelTaskCall t) st)) (queue s)
                 (s\<lparr>queue := []\<rparr>)
      in fold (\<lambda>(t, w) st. postToWorker w (cancelCommandFor t st) st) (activeWorkers s1) s1)"

definition pause :: "queueState \<Rightarrow> queueError + queueState" where
  "pause s =
     (if isDestroyed s then Inl QueueDestroyed
      else if \<not> isPaused s then Inr (emit EvQueuePaused (s\<lparr>isPaused := True\<rparr>))
      else Inr s)"

definition resume :: "queueState \<Rightarrow> queueError + queueState" where
  "resume s =
     (if isDestroyed s then Inl QueueDestroyed
      else if isPaused s
      then Inr (processQueue (emit EvQueueResumed (s\<lparr>isPaused := False\<rparr>)))
      else Inr s)"

text \<open>\<open>destroy\<close>, and the callback of the timer it sets.\<close>

definition destroy :: "queueState \<Rightarrow> queueState" where
  "destroy s =
     (if isDestroyed s then s
      else let s1 = s\<lparr>isDestroyed := True, isPaused := False\<rparr>;
               s2 = cancelAll s1
           in s2\<lparr>timers := timers s2 @ [TeardownTimer]\<rparr>)"

definition teardown :: "queueState \<Rightarrow> queueState" where
  "teardown s =
     track ResetTracker
       (s\<lparr>terminated := terminated s @ workerPool s @ batchWorkerPool s,
          workerPool := [], batchWorkerPool := [], activeWorkers := [], queue := []\<rparr>)"

text \<open>
  Submission. \<open>orElse\<close> is \<open>v || d\<close> on a possibly absent number, \<open>orElseString\<close> on a
  possibly absent string; \<open>toLowerCase\<close> acts on the letters A to Z. The sort of the
  queue is the stable sort by descending priority (\<open>Array.prototype.sort\<close> is stable).
\<close>

definition orElse :: "int option \<Rightarrow> int \<Rightarrow> int" where
  "orElse v d = (case v of None \<Rightarrow> d | Some x \<Rightarrow> if x = 0 then d else x)"

definition orElseString :: "string option \<Rightarrow> string \<Rightarrow> string" where
  "orElseString v d = (case v of None \<Rightarrow> d | Some x \<Rightarrow> if x = [] then d else x)"

definition lowerChar :: "char \<Rightarrow> char" where
  "lowerChar c =
     (case map_of (zip ''ABCDEFGHIJKLMNOPQRSTUVWXYZ'' ''abcdefghijklmnopqrstuvwxyz'') c of
        Some l \<Rightarrow> l
      | None \<Rightarrow> c)"

definition toLowerCase :: "string \<Rightarrow> string" where
  "toLowerCase str = map lowerChar str"

definition validTargetTypes :: "string list" where
  "validTargetTypes = [''jpeg'', ''jpg'', ''png'', ''webp'']"

definition sortByPriority :: "queueState \<Rightarrow> taskId list" where
  "sortByPriority s = sort_key (\<lambda>t. - priority (tasks s t)) (queue s)"

fun validFile :: "fileObj option \<Rightarrow> queueError option" where
  "validFile None = Some NotAFile"
| "validFile (Some f) =
     (case fname f of
        None \<Rightarrow> Some NoValidName
      | Some n \<Rightarrow>
          if n = [] then Some NoValidName
          else (case fsize f of
                  None \<Rightarrow> Some NoValidSize
                | Some sz \<Rightarrow> if sz < 0 then Some NoValidSize else None))"

text \<open>
  The part of \<open>addFile\<close> and \<open>addBatch\<close> after the validation of the files: the task
  object (its \<open>options\<close> are \<open>{targetType: ..., quality, ...options}\<close>, where the spread
  puts back the caller's own \<open>targetType\<close> and \<open>quality\<close> when present), its
  registration, the push, the sort and the call of \<open>processQueue\<close>.
\<close>

definition submit ::
  "taskType \<Rightarrow> fileObj list \<Rightarrow> addOptions \<Rightarrow> queueState \<Rightarrow> queueError + (taskId \<times> queueState)" where
  "submit typ files options s =
     (let taskId = nextTaskId s;
          targetType = orElseString (targetTypeOpt options) ''jpeg'';
          quality = min 100 (max 1 (orElse (qualityOpt options) 90))
      in if toLowerCase targetType \<notin> set validTargetTypes then Inl InvalidTargetType
         else let tk = \<lparr>tType = typ, tFiles = files,
                        tTargetType = (case targetTypeOpt options of
                                         Some x \<Rightarrow> x | None \<Rightarrow> toLowerCase targetType),
                        tQuality = (case qualityOpt options of Some q \<Rightarrow> q | None \<Rightarrow> quality),
                        retries = 0, status = Queued,
                        priority = orElse (priorityOpt options) 0\<rparr>;
                  s1 = s\<lparr>nextTaskId := taskId + 1, tasks := (tasks s)(taskId := tk)\<rparr>;
                  s2 = track (CreateTask taskId) s1;
                  s3 = s2\<lparr>queue := queue s2 @ [taskId]\<rparr>;
                  s4 = s3\<lparr>queue := sortByPriority s3\<rparr>
              in Inr (taskId, processQueue s4))"

definition addFile ::
  "fileObj option \<Rightarrow> addOptions \<Rightarrow> queueState \<Rightarrow> queueError + (taskId \<times> queueState)" where
  "addFile file options s =
     (if isDestroyed s then Inl QueueDestroyed
      else case validFile file of
             Some e \<Rightarrow> Inl e
           | None \<Rightarrow> submit Single [the file] options s)"

definition addBatch ::
  "fileObj option list \<Rightarrow> addOptions \<Rightarrow> queueState \<Rightarrow> queueError + (taskId \<times> queueState)" where
  "addBatch files options s =
     (if isDestroyed s then Inl QueueDestroyed
      else if files = [] then Inl FilesEmpty
      else if length files > 100 then Inl BatchTooLarge
      else case List.find (\<lambda>f. validFile f \<noteq> None) files of
             Some f \<Rightarrow> Inl (the (validFile f))
           | None \<Rightarrow> submit Batch (map the files) options s)"

text \<open>The constructor with \<open>initializeWorkerPools\<close>.\<close>

record queueOptions =
  maxConcurrentOpt :: "int option"
  maxRetriesOpt :: "int option"
  retryDelayOpt :: "int option"
  maxWorkersOpt :: "int option"

definition addWorker :: "taskType \<Rightarrow> queueState \<Rightarrow> queueState" where
  "addWorker typ s = (case createWorker typ s of Inl e \<Rightarrow> s | Inr (w, s1) \<Rightarrow> s1)"

definition initializeWorkerPools :: "queueState \<Rightarrow> queueState" where
  "initializeWorkerPools s =
     ((\<lambda>st. addWorker Batch (addWorker Single st)) ^^ (min 2 (maxWorkers s))) s"

definition newQueue :: "queueOptions \<Rightarrow> queueState" where
  "newQueue options =
     initializeWorkerPools
       \<lparr>maxConcurrent = nat (max 1 (orElse (maxConcurrentOpt options) 2)),
        maxRetries = nat (max 0 (orElse (maxRetriesOpt options) 3)),
        retryDelay = nat (max 100 (orElse (retryDelayOpt options) 1000)),
        maxWorkers = nat (max 1 (orElse (maxWorkersOpt options) 4)),
        queue = [],
        tasks = (\<lambda>_. \<lparr>tType = Single, tFiles = [], tTargetType = [], tQuality = 0,
                       retries = 0, status = Queued, priority = 0\<rparr>),
        nextTaskId = 0,
        activeWorkers = [],
        workers = (\<lambda>_. \<lparr>wType = Single, busy = False, wTaskId = None, tasksProcessed = 0\<rparr>),
        nextWorker = 0,
        workerPool = [], batchWorkerPool = [],
        isPaused = False, isDestroyed = False,
        totalTasksProcessed = 0, totalTasksFailed = 0, totalTasksCancelled = 0,
        timers = [], emitted = [], posted = [], trackerCalls = [], terminated = [],
        suspendedCalls = 0, busyWrites = (\<lambda>_. [])\<rparr>"

text \<open>
  What can happen to a queue: a call of its interface, a message or an error event of
  one of its workers, a pending timer that fires, or a suspended call of \<open>processQueue\<close>
  that goes on. A call that throws leaves the state as it was.
\<close>

datatype action =
    AddFile "fileObj option" addOptions
  | AddBatch "fileObj option list" addOptions
  | WorkerMessage workerRef workerEventType
  | WorkerFault workerRef bool
  | TimerFires nat
  | CancelTask taskId
  | CancelAll
  | Pause
  | Resume
  | Destroy
  | ResumeLoop

definition fire :: "timer \<Rightarrow> queueState \<Rightarrow> queueState" where
  "fire tm s = (case tm of RequeueTimer d t \<Rightarrow> requeue t s | TeardownTimer \<Rightarrow> teardown s)"

definition dropTimer :: "nat \<Rightarrow> queueState \<Rightarrow> queueState" where
  "dropTimer i s = s\<lparr>timers := take i (timers s) @ drop (Suc i) (timers s)\<rparr>"

fun step :: "action \<Rightarrow> queueState \<Rightarrow> queueState" where
  "step (AddFile file options) s =
     (case addFile file options s of Inl e \<Rightarrow> s | Inr (t, s1) \<Rightarrow> s1)"
| "step (AddBatch files options) s =
     (case addBatch files options s of Inl e \<Rightarrow> s | Inr (t, s1) \<Rightarrow> s1)"
| "step (WorkerMessage w msg) s = (if w < nextWorker s then handleWorkerMessage w msg s else s)"
| "step (WorkerFault w isEvent) s = (if w < nextWorker s then handleWorkerError w isEvent s else s)"
| "step (TimerFires i) s =
     (if i < length (timers s) then fire (timers s ! i) (dropTimer i s) else s)"
| "step (CancelTask t) s = snd (cancelTask t s)"
| "step CancelAll s = cancelAll s"
| "step Pause s = (case pause s of Inl e \<Rightarrow> s | Inr s1 \<Rightarrow> s1)"
| "step Resume s = (case resume s of Inl e \<Rightarrow> s | Inr s1 \<Rightarrow> s1)"
| "step Destroy s = destroy s"
| "step ResumeLoop s = resumeLoop s"

definition run :: "action list \<Rightarrow> queueState \<Rightarrow> queueState" where
  "run acts s = fold step acts s"

inductive reachable :: "queueState \<Rightarrow> bool" where
  reach_start: "reachable (newQueue options)"
| reach_step: "reachable s \<Longrightarrow> reachable (step a s)"



text \<open>
  What every step but an error report leaves as it was: the configuration of the retry
  policy and the retry counts of the tasks issued so far.
\<close>

definition keepsRetries :: "queueState \<Rightarrow> queueState \<Rightarrow> bool" where
  "keepsRetries s s' =
     (maxRetries s' = maxRetries s \<and> retryDelay s' = retryDelay s \<and>
      nextTaskId s \<le> nextTaskId s' \<and>
      (\<forall>t < nextTaskId s. retries (tasks s' t) = retries (tasks s t)))"

text \<open>Each write to a worker's \<open>busy\<close> flag changes it, the flag being \<open>b\<close> before.\<close>

fun alternates :: "bool \<Rightarrow> bool list \<Rightarrow> bool" where
  "alternates b [] = True"
| "alternates b (x # xs) = (x = (\<not> b) \<and> alternates x xs)"

text \<open>
  The order in which pending tasks are to be served: higher priority first, and among
  equal priorities the task submitted earlier (the smaller identifier) first.
\<close>

definition servedBefore :: "queueState \<Rightarrow> taskId \<Rightarrow> taskId \<Rightarrow> bool" where
  "servedBefore s a b =
     (priority (tasks s b) < priority (tasks s a) \<or>
      (priority (tasks s a) = priority (tasks s b) \<and> a < b))"

definition pendingInOrder :: "queueState \<Rightarrow> bool" where
  "pendingInOrder s =
     (sorted_wrt (servedBefore s) (queue s) \<and> (\<forall>t \<in> set (queue s). t < nextTaskId s))"

text \<open>The tasks handed to a worker, in the order of the \<open>executeTask\<close> calls.\<close>

fun startedTasks :: "trackerCall list \<Rightarrow> taskId list" where
  "startedTasks [] = []"
| "startedTasks (UpdateProgress t p StartingConversion # cs) = t # startedTasks cs"
| "startedTasks (_ # cs) = startedTasks cs"




text \<open>
  The invariant of the worker slots: the keys of \<open>activeWorkers\<close> are distinct, a worker
  held by an entry is busy and carries the entry's task identifier, every write to a
  \<open>busy\<close> flag has changed it, no worker reference beyond the last one issued is busy,
  and the pools hold issued references only.
\<close>

definition lastWrite :: "bool list \<Rightarrow> bool" where
  "lastWrite xs = last (False # xs)"

definition slotInv :: "queueState \<Rightarrow> bool" where
  "slotInv s =
     (distinct (map fst (activeWorkers s)) \<and>
      (\<forall>t w. map_of (activeWorkers s) t = Some w \<longrightarrow>
             busy (workers s w) \<and> wTaskId (workers s w) = Some t) \<and>
      (\<forall>w. alternates False (busyWrites s w) \<and>
           lastWrite (busyWrites s w) = busy (workers s w)) \<and>
      (\<forall>w. nextWorker s \<le> w \<longrightarrow> \<not> busy (workers s w)) \<and>
      (\<forall>w \<in> set (workerPool s) \<union> set (batchWorkerPool s). w < nextWorker s))"

text \<open>What a pass of scheduling leaves as it was.\<close>

definition untouched :: "queueState \<Rightarrow> queueState \<Rightarrow> bool" where
  "untouched s s' =
     (emitted s' = emitted s \<and> timers s' = timers s \<and>
      totalTasksFailed s' = totalTasksFailed s \<and> maxRetries s' = maxRetries s \<and>
      retryDelay s' = retryDelay s \<and> nextTaskId s' = nextTaskId s \<and>
      isPaused s' = isPaused s \<and> isDestroyed s' = isDestroyed s \<and>
      (\<forall>t. retries (tasks s' t) = retries (tasks s t) \<and>
           priority (tasks s' t) = priority (tasks s t)))"

text \<open>Example inputs: a queue with the default options, a file, an empty options object.\<close>

definition defaultOptions :: queueOptions where
  "defaultOptions = \<lparr>maxConcurrentOpt = None, maxRetriesOpt = None, retryDelayOpt = None,
     maxWorkersOpt = None\<rparr>"

definition photo :: "fileObj option" where
  "photo = Some \<lparr>fname = Some ''a.heic'', fsize = Some 2000000\<rparr>"

definition noOptions :: addOptions where
  "noOptions = \<lparr>targetTypeOpt = None, qualityOpt = None, priorityOpt = None\<rparr>"



text \<open>
  A queue with a single slot: the task is submitted, its worker reports an error, and
  the retry timer fires. Then the caller cancels the task.
\<close>

definition singleSlot :: queueOptions where
  "singleSlot = defaultOptions\<lparr>maxConcurrentOpt := Some 1\<rparr>"

definition requeuedOnSingleSlot :: "action list" where
  "requeuedOnSingleSlot = [AddFile photo noOptions, ResumeLoop, WorkerMessage 0 MsgError,
     TimerFires 0]"

definition stuckRun :: "action list" where
  "stuckRun = requeuedOnSingleSlot @ [CancelTask 0]"

text \<open>
  Two tasks of priority 0 are running when a task of priority 5 is submitted; the first
  task fails and is put back by its retry timer.
\<close>

definition urgent :: addOptions where
  "urgent = noOptions\<lparr>priorityOpt := Some 5\<rparr>"


text \<open>
  Three submissions to a paused queue, with priorities 1, 5 and 5; then the queue is
  resumed, and \<open>resume\<close> hands the first task of the list to a worker.
\<close>

definition pausedRun :: "action list" where
  "pausedRun = [Pause, AddFile photo (noOptions\<lparr>priorityOpt := Some 1\<rparr>),
     AddFile photo urgent, AddFile photo urgent]"

definition resumedRun :: "action list" where
  "resumedRun = pausedRun @ [Resume]"


text \<open>
  On a queue with a single slot a batch of two files is running and a batch of one file
  is pending; the caller cancels the first batch, and its worker acknowledges with
  \<open>batch-cancelled\<close>.
\<close>

definition twoPhotos :: "fileObj option list" where
  "twoPhotos = [Some \<lparr>fname = Some ''a.heic'', fsize = Some 2000000\<rparr>,
                Some \<lparr>fname = Some ''b.heic'', fsize = Some 3000000\<rparr>]"

definition onePhoto :: "fileObj option list" where
  "onePhoto = [Some \<lparr>fname = Some ''d.heic'', fsize = Some 1000000\<rparr>]"

definition batchHandover :: "action list" where
  "batchHandover = [AddBatch twoPhotos noOptions, ResumeLoop, AddBatch onePhoto noOptions,
     CancelTask 0, WorkerMessage 1 MsgBatchCancelled]"

section \<open>Properties of the memory manager\<close>

lemma keepCount_div: "keepCount m = (length (activeBlobs m) * 3) div 10"
proof -
  have "real (length (activeBlobs m)) * 0.3 = real (length (activeBlobs m) * 3) / real 10"
    by simp
  then have "\<lfloor>real (length (activeBlobs m)) * 0.3\<rfloor> = int ((length (activeBlobs m) * 3) div 10)"
    by (simp only: floor_divide_of_nat_eq)
  then show ?thesis by (simp add: keepCount_def)
qed

lemma tenTracked_blobs: "activeBlobs tenTracked = tenBlobs"
  by (simp add: tenTracked_def tenBlobs_def newManager_def registerBlob_def setAdd_def upt_rec)

text \<open>
  C7, as the code has it: \<open>hasAvailableMemory\<close> answers true exactly when the current
  usage plus the requested estimate is strictly below the ceiling \<open>maxMemoryUsage\<close>
  itself; the threshold \<open>maxMemoryUsage * gcThreshold\<close> only decides whether
  \<open>triggerCleanup\<close> runs before the answer, and it runs whenever the projection
  exceeds that threshold.
\<close>

theorem hasAvailableMemory_answer:
  "fst (hasAvailableMemory req m) = (getCurrentMemoryUsage m + req < maxMemoryUsage m) \<and>
   snd (hasAvailableMemory req m) =
     (if real_of_int (getCurrentMemoryUsage m + req) > real_of_int (maxMemoryUsage m) * gcThreshold m
      then triggerCleanup m else m)"
  by (simp add: hasAvailableMemory_def Let_def)

theorem hasAvailableMemory_answer_witness:
  "fst (hasAvailableMemory 900 (newManager 1000)) \<and>
   snd (hasAvailableMemory 900 (newManager 1000)) = triggerCleanup (newManager 1000) \<and>
   \<not> fst (hasAvailableMemory 1000 (newManager 1000)) \<and>
   snd (hasAvailableMemory 700 (newManager 1000)) = newManager 1000"
  using hasAvailableMemory_answer [of 900 "newManager 1000"]
    hasAvailableMemory_answer [of 1000 "newManager 1000"]
    hasAvailableMemory_answer [of 700 "newManager 1000"]
  by (simp add: getCurrentMemoryUsage_def newManager_def)

text \<open>
  C7 as stated fails: with nothing tracked and a ceiling of 1000 bytes, a request of 900
  bytes is answered true although 900 exceeds \<open>1000 * 0.8\<close>.
\<close>

theorem hasAvailableMemory_above_threshold:
  "fst (hasAvailableMemory 900 (newManager 1000)) \<and>
   \<not> real_of_int (getCurrentMemoryUsage (newManager 1000) + 900)
        \<le> real_of_int (maxMemoryUsage (newManager 1000)) * gcThreshold (newManager 1000)"
  by (simp add: hasAvailableMemory_def Let_def getCurrentMemoryUsage_def newManager_def)

text \<open>
  C8 at a concrete input: of ten blobs registered in the order 1, 2, ..., 10,
  \<open>triggerCleanup\<close> keeps the three registered first (the oldest) and releases the
  seven registered last, where the source's comment says "Keep 30% newest".
\<close>

theorem triggerCleanup_keeps_oldest:
  "activeBlobs (triggerCleanup tenTracked) = [Blob 1 100, Blob 2 100, Blob 3 100]"
  by (simp add: triggerCleanup_def blobsToRemove_def keepCount_div urlsToRevoke_def
      tenTracked_def tenBlobs_def newManager_def registerBlob_def unregisterBlob_def
      setAdd_def setDelete_def upt_rec)

text \<open>
  C10: \<open>registerBlob\<close> of a blob adds exactly its size to the estimate,
  \<open>unregisterBlob\<close> of a tracked blob subtracts exactly its size, registering and then
  unregistering a blob that was not tracked gives back the manager as it was (the
  estimate and the tracked blobs included), and \<open>unregisterBlob\<close> of an untracked blob
  changes nothing.
\<close>

theorem register_unregister:
  "(isBlob b \<longrightarrow> currentMemoryEstimate (registerBlob b m) = currentMemoryEstimate m + sizeOf b) \<and>
   (b \<in> set (activeBlobs m) \<longrightarrow>
      currentMemoryEstimate (unregisterBlob b m) = currentMemoryEstimate m - sizeOf b) \<and>
   (isBlob b \<and> b \<notin> set (activeBlobs m) \<longrightarrow> unregisterBlob b (registerBlob b m) = m) \<and>
   (b \<notin> set (activeBlobs m) \<longrightarrow> unregisterBlob b m = m)"
  by (simp add: registerBlob_def unregisterBlob_def setDelete_def setAdd_def)

theorem register_unregister_witness:
  "isBlob (Blob 1 100) \<and> Blob 1 100 \<notin> set (activeBlobs (newManager 1000)) \<and>
   currentMemoryEstimate (registerBlob (Blob 1 100) (newManager 1000)) = 100 \<and>
   unregisterBlob (Blob 1 100) (registerBlob (Blob 1 100) (newManager 1000)) = newManager 1000 \<and>
   unregisterBlob (Blob 1 100) (newManager 1000) = newManager 1000 \<and>
   Blob 1 100 \<in> set (activeBlobs (registerBlob (Blob 1 100) (newManager 1000))) \<and>
   currentMemoryEstimate (unregisterBlob (Blob 1 100) (registerBlob (Blob 1 100) (newManager 1000))) = 0"
  using register_unregister [of "Blob 1 100" "newManager 1000"]
    register_unregister [of "Blob 1 100" "registerBlob (Blob 1 100) (newManager 1000)"]
  by (simp add: newManager_def registerBlob_def setAdd_def)

section \<open>The workers at concrete inputs\<close>

lemmas worker_defs =
  workerRun_def workerStep_def onmessage_def onConvert_def onCancel_def afterReading_def
  afterConverter_def afterEncoding_def afterOptimizing_def onInterval_def catchBlock_def
  suspend_def leave_def sendProgress_def postMessage_def freshWorker_def Let_def

lemmas batch_defs =
  batchRun_def batchStep_def onBatchMessage_def onConvertBatch_def onCancelBatch_def
  afterLoading_def afterDecoding_def afterEncodingFile_def nextFile_def waitAt_def
  completeBatch_def catchFile_def sendBatchProgress_def calculateBatchProgress_def
  record_event_def idleBatchWorker_def Let_def

text \<open>
  A conversion that nothing disturbs posts its progress messages and then one terminal
  message, the result.
\<close>

lemma undisturbed_conversion:
  "outbox (workerRun undisturbed freshWorker) =
     [ProgressMsg 0 Loading, ProgressMsg 10 Loading, ProgressMsg 20 Loading,
      ProgressMsg 20 Decoding, ProgressMsg 21 Decoding, ProgressMsg 22 Decoding,
      ProgressMsg 60 Decoding, ProgressMsg 60 Encoding, ProgressMsg 80 Encoding,
      ProgressMsg 90 Encoding, ProgressMsg 90 Finalizing, ProgressMsg 100 Complete,
      SuccessMsg]"
  by (simp add: worker_defs undisturbed_def)

text \<open>
  C5 at a concrete input. The single-file worker is given a conversion to JPEG and,
  while the conversion waits for its first timer, a \<open>cancel\<close> command. It posts the
  progress messages 0 and 10, then \<open>cancelled\<close> from the \<open>cancel\<close> branch, and, when the
  timer has fired, the failure message with \<open>cancelled: true\<close> from the \<open>catch\<close> block of
  the \<open>convert\<close> branch: two terminal messages for one conversion, and no invocation
  is left that could post another.
\<close>

theorem cancelled_conversion_two_terminals:
  "outbox (workerRun cancelledEarly freshWorker) =
     [ProgressMsg 0 Loading, ProgressMsg 10 Loading, CancelledMsg, FailureMsg True] \<and>
   filter isTerminal (outbox (workerRun cancelledEarly freshWorker)) =
     [CancelledMsg, FailureMsg True] \<and>
   suspended (workerRun cancelledEarly freshWorker) = []"
  by (simp add: worker_defs cancelledEarly_def)

text \<open>
  The \<open>convert\<close> branch resets \<open>isCancelled\<close>: when the next conversion arrives while
  the cancelled one still waits, the cancelled conversion finds the flag false at its
  next check and goes on, posting progress after its \<open>cancelled\<close> message.
\<close>

lemma cancelled_conversion_goes_on:
  "outbox (workerRun cancelledThenNextConversion freshWorker) =
     [ProgressMsg 0 Loading, ProgressMsg 10 Loading, CancelledMsg,
      ProgressMsg 0 Loading, ProgressMsg 10 Loading,
      ProgressMsg 20 Loading, ProgressMsg 20 Decoding] \<and>
   suspended (workerRun cancelledThenNextConversion freshWorker) =
     [(0, ''jpeg'', ConverterCall), (1, ''png'', ReadingFile)]"
  by (simp add: worker_defs cancelledThenNextConversion_def)

text \<open>
  When no other batch follows, the invocation for a cancelled batch finishes the file it
  is at and stops at the head of the next pass of its loop.
\<close>

lemma cancelled_batch_alone:
  "trace (batchRun cancelledAlone idleBatchWorker) =
     [BatchProgress (Literal 0) [], StartFile 0 0 ''a.heic'',
      BatchProgress (OfFile 0 0 3) ''a.heic'', BatchProgress (OfFile 0 20 3) ''a.heic'',
      BatchProgress (OfFile 0 40 3) ''a.heic'', CallConverter 0 ''a.heic'',
      BatchProgress (OfFile 0 70 3) ''a.heic'',
      BatchCancelled [] [],
      BatchProgress (OfFile 0 90 3) ''a.heic'', BatchProgress (OfFile 0 100 3) ''a.heic''] \<and>
   waiting (batchRun cancelledAlone idleBatchWorker) = []"
  by (simp add: batch_defs cancelledAlone_def firstBatch_def)

text \<open>
  C9 at a concrete input. A batch of three files is cancelled while its first file waits
  for the first timer; the worker posts \<open>batch-cancelled\<close>, with no results and no
  errors. Before that timer fires the worker is given the next batch, of one file, and
  the \<open>convert-batch\<close> branch replaces \<open>batchState\<close>, whose \<open>isCancelled\<close> is false again.
  When its timer fires the invocation for the cancelled batch (invocation 0) finds the
  flag false: it goes on with its first file, calls the converter for it, pushes the
  result, and starts its second file.
\<close>

theorem cancelled_batch_starts_next_file:
  "trace (batchRun cancelledThenNextBatch idleBatchWorker) =
     [BatchProgress (Literal 0) [], StartFile 0 0 ''a.heic'',
      BatchProgress (OfFile 0 0 3) ''a.heic'',
      BatchCancelled [] [],
      BatchProgress (Literal 0) [], StartFile 1 0 ''d.heic'',
      BatchProgress (OfFile 0 0 1) ''d.heic'',
      BatchProgress (OfFile 0 20 1) ''a.heic'', BatchProgress (OfFile 0 40 1) ''a.heic'',
      CallConverter 0 ''a.heic'',
      BatchProgress (OfFile 0 20 1) ''d.heic'', BatchProgress (OfFile 0 40 1) ''d.heic'',
      CallConverter 1 ''d.heic'',
      BatchProgress (OfFile 0 70 1) ''a.heic'', BatchProgress (OfFile 0 70 1) ''d.heic'',
      BatchProgress (OfFile 0 90 1) ''a.heic'', BatchProgress (OfFile 0 100 1) ''a.heic'',
      StartFile 0 1 ''b.heic'', BatchProgress (OfFile 1 0 1) ''b.heic''] \<and>
   results (state (batchRun cancelledThenNextBatch idleBatchWorker)) = [''a.heic'']"
  by (simp add: batch_defs cancelledThenNextBatch_def firstBatch_def)

section \<open>Properties of the conversion queue\<close>

subsection \<open>The scheduling loop and the invariant of the worker slots\<close>

lemma alternates_append:
  "alternates b (xs @ [x]) = (alternates b xs \<and> x = (\<not> last (b # xs)))"
  by (induction xs arbitrary: b) auto

lemma alternates_snoc:
  "alternates False (xs @ [x]) = (alternates False xs \<and> x = (\<not> lastWrite xs))"
  by (simp add: alternates_append lastWrite_def)

lemma lastWrite_simps [simp]: "lastWrite [] = False" "lastWrite (xs @ [x]) = x"
  by (simp_all add: lastWrite_def)

text \<open>A rule for one pass of the scheduling loop, and one for the calls that run it.\<close>

lemma loopPass_rule:
  assumes init: "I s"
    and dispatch: "\<And>s w s2. I s \<Longrightarrow> queue s \<noteq> [] \<Longrightarrow> length (activeWorkers s) < maxConcurrent s \<Longrightarrow>
       \<not> isPaused s \<Longrightarrow> \<not> isDestroyed s \<Longrightarrow>
       getAvailableWorker (tType (tasks s (hd (queue s)))) (s\<lparr>queue := tl (queue s)\<rparr>) = Inr (Some w, s2) \<Longrightarrow>
       I (executeTask (hd (queue s)) w s2)"
    and noWorker: "\<And>s s2. I s \<Longrightarrow> queue s \<noteq> [] \<Longrightarrow> length (activeWorkers s) < maxConcurrent s \<Longrightarrow>
       \<not> isPaused s \<Longrightarrow> \<not> isDestroyed s \<Longrightarrow>
       getAvailableWorker (tType (tasks s (hd (queue s)))) (s\<lparr>queue := tl (queue s)\<rparr>) = Inr (None, s2) \<Longrightarrow>
       I (s2\<lparr>queue := hd (queue s) # queue s2\<rparr>)"
    and thrown: "\<And>s e. I s \<Longrightarrow> queue s \<noteq> [] \<Longrightarrow> length (activeWorkers s) < maxConcurrent s \<Longrightarrow>
       \<not> isPaused s \<Longrightarrow> \<not> isDestroyed s \<Longrightarrow>
       getAvailableWorker (tType (tasks s (hd (queue s)))) (s\<lparr>queue := tl (queue s)\<rparr>) = Inl e \<Longrightarrow>
       I (s\<lparr>queue := tl (queue s)\<rparr>)"
  shows "I (snd (loopPass s))"
proof (cases "loopCondition s")
  case False
  then show ?thesis using init by (simp add: loopPass_def)
next
  case True
  then have g1: "queue s \<noteq> []" and g2: "length (activeWorkers s) < maxConcurrent s"
    and g3: "\<not> isPaused s" and g4: "\<not> isDestroyed s"
    by (simp_all add: loopCondition_def)
  let ?t = "hd (queue s)"
  let ?s1 = "s\<lparr>queue := tl (queue s)\<rparr>"
  show ?thesis
  proof (cases "getAvailableWorker (tType (tasks ?s1 ?t)) ?s1")
    case (Inl e)
    then have "I ?s1"
      using thrown [OF init g1 g2 g3 g4, of e] by simp
    then show ?thesis
      using True Inl by (simp add: loopPass_def Let_def)
  next
    case (Inr r)
    obtain wo s2 where r: "r = (wo, s2)" by (cases r)
    show ?thesis
    proof (cases wo)
      case None
      have "getAvailableWorker (tType (tasks s ?t)) ?s1 = Inr (None, s2)"
        using Inr r None by simp
      then have "I (s2\<lparr>queue := ?t # queue s2\<rparr>)"
        by (rule noWorker [OF init g1 g2 g3 g4])
      then show ?thesis
        using True Inr r None by (simp add: loopPass_def Let_def)
    next
      case (Some w)
      have g: "getAvailableWorker (tType (tasks s ?t)) ?s1 = Inr (Some w, s2)"
        using Inr r Some by simp
      have "I (executeTask ?t w s2)"
        using dispatch [OF init g1 g2 g3 g4 g] by simp
      then show ?thesis
        using True Inr r Some by (simp add: loopPass_def Let_def)
    qed
  qed
qed

lemma scheduling_rule:
  assumes init: "I s"
    and pass: "\<And>s. I s \<Longrightarrow> I (snd (loopPass s))"
    and frame: "\<And>s n. I s \<Longrightarrow> I (s\<lparr>suspendedCalls := n\<rparr>)"
  shows "I (processQueue s)" and "I (resumeLoop s)"
proof -
  have susp: "I (suspendLoop (loopPass x))" if "I x" for x
    using pass [OF that] frame [OF pass [OF that]] by (simp add: suspendLoop_def)
  show "I (processQueue s)"
    using init susp [OF init] by (simp add: processQueue_def)
  show "I (resumeLoop s)"
    using init susp [OF frame [OF init]] by (simp add: resumeLoop_def)
qed

lemma slotInvI:
  assumes "distinct (map fst (activeWorkers s))"
    and "\<And>t w. map_of (activeWorkers s) t = Some w \<Longrightarrow> busy (workers s w) \<and> wTaskId (workers s w) = Some t"
    and "\<And>w. alternates False (busyWrites s w)"
    and "\<And>w. lastWrite (busyWrites s w) = busy (workers s w)"
    and "\<And>w. nextWorker s \<le> w \<Longrightarrow> \<not> busy (workers s w)"
    and "\<And>w. w \<in> set (workerPool s) \<union> set (batchWorkerPool s) \<Longrightarrow> w < nextWorker s"
  shows "slotInv s"
  using assms unfolding slotInv_def by blast

lemma slotInvD:
  assumes "slotInv s"
  shows "distinct (map fst (activeWorkers s))"
    and "map_of (activeWorkers s) t = Some w \<Longrightarrow> busy (workers s w)"
    and "map_of (activeWorkers s) t = Some w \<Longrightarrow> wTaskId (workers s w) = Some t"
    and "alternates False (busyWrites s w)"
    and "lastWrite (busyWrites s w) = busy (workers s w)"
    and "nextWorker s \<le> w \<Longrightarrow> \<not> busy (workers s w)"
    and "w \<in> set (workerPool s) \<Longrightarrow> w < nextWorker s"
    and "w \<in> set (batchWorkerPool s) \<Longrightarrow> w < nextWorker s"
  using assms unfolding slotInv_def by blast+

lemma slotInv_frame [simp]:
  "slotInv (emit e s) = slotInv s"
  "slotInv (track c s) = slotInv s"
  "slotInv (postToWorker w cmd s) = slotInv s"
  "slotInv (s\<lparr>queue := q\<rparr>) = slotInv s"
  "slotInv (s\<lparr>tasks := tk\<rparr>) = slotInv s"
  "slotInv (s\<lparr>timers := tm\<rparr>) = slotInv s"
  "slotInv (s\<lparr>isPaused := b\<rparr>) = slotInv s"
  "slotInv (s\<lparr>isDestroyed := b\<rparr>) = slotInv s"
  "slotInv (s\<lparr>totalTasksProcessed := n\<rparr>) = slotInv s"
  "slotInv (s\<lparr>totalTasksFailed := n\<rparr>) = slotInv s"
  "slotInv (s\<lparr>totalTasksCancelled := n\<rparr>) = slotInv s"
  "slotInv (s\<lparr>nextTaskId := n\<rparr>) = slotInv s"
  "slotInv (s\<lparr>terminated := ws\<rparr>) = slotInv s"
  "slotInv (s\<lparr>suspendedCalls := n\<rparr>) = slotInv s"
  by (simp_all add: slotInv_def emit_def track_def postToWorker_def)

lemma createWorker_fields:
  assumes "createWorker typ s = Inr (w, s')"
  shows "w = nextWorker s" "nextWorker s' = Suc (nextWorker s)"
    "activeWorkers s' = activeWorkers s" "busyWrites s' = busyWrites s"
    "workers s' = (workers s)(w := \<lparr>wType = typ, busy = False, wTaskId = None, tasksProcessed = 0\<rparr>)"
    "set (workerPool s') \<union> set (batchWorkerPool s') = insert w (set (workerPool s) \<union> set (batchWorkerPool s))"
    "queue s' = queue s" "tasks s' = tasks s" "isPaused s' = isPaused s"
    "isDestroyed s' = isDestroyed s" "maxConcurrent s' = maxConcurrent s"
    "emitted s' = emitted s" "trackerCalls s' = trackerCalls s" "posted s' = posted s"
    "timers s' = timers s" "nextTaskId s' = nextTaskId s" "maxRetries s' = maxRetries s"
    "retryDelay s' = retryDelay s" "maxWorkers s' = maxWorkers s"
  using assms by (auto simp: createWorker_def Let_def split: if_splits)

lemma createWorker_slotInv:
  assumes c: "createWorker typ s = Inr (w, s')" and i: "slotInv s"
  shows "slotInv s' \<and> \<not> busy (workers s' w) \<and> w < nextWorker s'"
proof -
  note f = createWorker_fields [OF c]
  have free: "\<not> busy (workers s w)"
    using slotInvD(6) [OF i, of w] f(1) by simp
  have "slotInv s'"
  proof (rule slotInvI)
    show "distinct (map fst (activeWorkers s'))"
      using slotInvD(1) [OF i] by (simp add: f)
    show "busy (workers s' w') \<and> wTaskId (workers s' w') = Some t"
      if "map_of (activeWorkers s') t = Some w'" for t w'
    proof -
      from that have m: "map_of (activeWorkers s) t = Some w'" by (simp add: f)
      with free slotInvD(2) [OF i m] have "w' \<noteq> w" by auto
      then show ?thesis using slotInvD(2,3) [OF i m] by (simp add: f)
    qed
    show "alternates False (busyWrites s' w')" for w'
      using slotInvD(4) [OF i] by (simp add: f)
    show "lastWrite (busyWrites s' w') = busy (workers s' w')" for w'
      using slotInvD(5) [OF i, of w'] free by (auto simp: f)
    show "\<not> busy (workers s' w')" if "nextWorker s' \<le> w'" for w'
      using that slotInvD(6) [OF i, of w'] by (simp add: f)
    show "w' < nextWorker s'" if "w' \<in> set (workerPool s') \<union> set (batchWorkerPool s')" for w'
      using that slotInvD(7,8) [OF i, of w'] f(1) by (auto simp: f(2,6))
  qed
  then show ?thesis by (simp add: f)
qed

lemma getAvailableWorker_None: "getAvailableWorker typ s = Inr (None, s') \<Longrightarrow> s' = s"
  by (auto simp: getAvailableWorker_def Let_def split: option.splits if_splits sum.splits)

lemma getAvailableWorker_Some:
  assumes "getAvailableWorker typ s = Inr (Some w, s')"
  shows "(s' = s \<and> w \<in> set (poolOf typ s) \<and> \<not> busy (workers s w)) \<or>
         createWorker typ s = Inr (w, s')"
proof (cases "find (\<lambda>w. \<not> busy (workers s w)) (poolOf typ s)")
  case (Some w0)
  then have "w0 = w" "s' = s" using assms by (simp_all add: getAvailableWorker_def)
  moreover from Some have "w0 \<in> set (poolOf typ s)" "\<not> busy (workers s w0)"
    by (auto simp: find_Some_iff)
  ultimately show ?thesis by simp
next
  case None
  then show ?thesis
    using assms by (auto simp: getAvailableWorker_def Let_def split: if_splits sum.splits)
qed

lemma getAvailableWorker_slotInv:
  assumes g: "getAvailableWorker typ s = Inr (Some w, s')" and i: "slotInv s"
  shows "slotInv s' \<and> \<not> busy (workers s' w) \<and> w < nextWorker s'"
  using getAvailableWorker_Some [OF g]
proof
  assume a: "s' = s \<and> w \<in> set (poolOf typ s) \<and> \<not> busy (workers s w)"
  then have "w < nextWorker s"
    using slotInvD(7,8) [OF i, of w] by (auto simp: poolOf_def split: if_splits)
  with a i show ?thesis by simp
next
  assume "createWorker typ s = Inr (w, s')"
  then show ?thesis using i by (rule createWorker_slotInv)
qed

lemma executeTask_fields:
  "activeWorkers (executeTask t w s) = AList.update t w (activeWorkers s)"
  "workers (executeTask t w s) = (workers s)(w := (workers s w)\<lparr>busy := True, wTaskId := Some t\<rparr>)"
  "busyWrites (executeTask t w s) = (busyWrites s)(w := busyWrites s w @ [True])"
  "nextWorker (executeTask t w s) = nextWorker s"
  "workerPool (executeTask t w s) = workerPool s"
  "batchWorkerPool (executeTask t w s) = batchWorkerPool s"
  "queue (executeTask t w s) = queue s"
  "isPaused (executeTask t w s) = isPaused s"
  "isDestroyed (executeTask t w s) = isDestroyed s"
  "maxConcurrent (executeTask t w s) = maxConcurrent s"
  "emitted (executeTask t w s) = emitted s"
  "timers (executeTask t w s) = timers s"
  "nextTaskId (executeTask t w s) = nextTaskId s"
  "maxRetries (executeTask t w s) = maxRetries s"
  "retryDelay (executeTask t w s) = retryDelay s"
  "maxWorkers (executeTask t w s) = maxWorkers s"
  "tasks (executeTask t w s) = (tasks s)(t := (tasks s t)\<lparr>status := Processing\<rparr>)"
  by (simp_all add: executeTask_def Let_def track_def postToWorker_def)

lemma executeTask_slotInv:
  assumes i: "slotInv s" and free: "\<not> busy (workers s w)" and lt: "w < nextWorker s"
  shows "slotInv (executeTask t w s)"
proof (rule slotInvI)
  note f = executeTask_fields
  show "distinct (map fst (activeWorkers (executeTask t w s)))"
    using slotInvD(1) [OF i] by (simp add: f AList.distinct_update)
  show "busy (workers (executeTask t w s) w') \<and> wTaskId (workers (executeTask t w s) w') = Some t'"
    if "map_of (activeWorkers (executeTask t w s)) t' = Some w'" for t' w'
  proof (cases "t' = t")
    case True
    with that have "w' = w" by (simp add: f AList.update_conv')
    then show ?thesis using True by (simp add: f)
  next
    case False
    with that have m: "map_of (activeWorkers s) t' = Some w'" by (simp add: f AList.update_conv')
    with free slotInvD(2) [OF i m] have "w' \<noteq> w" by auto
    then show ?thesis using slotInvD(2,3) [OF i m] by (simp add: f)
  qed
  show "alternates False (busyWrites (executeTask t w s) w')" for w'
    using slotInvD(4) [OF i, of w'] slotInvD(4) [OF i, of w] slotInvD(5) [OF i, of w] free
    by (simp add: f alternates_snoc)
  show "lastWrite (busyWrites (executeTask t w s) w') = busy (workers (executeTask t w s) w')" for w'
    using slotInvD(5) [OF i, of w'] by (simp add: f)
  show "\<not> busy (workers (executeTask t w s) w')" if "nextWorker (executeTask t w s) \<le> w'" for w'
    using that slotInvD(6) [OF i, of w'] lt by (simp add: f)
  show "w' < nextWorker (executeTask t w s)"
    if "w' \<in> set (workerPool (executeTask t w s)) \<union> set (batchWorkerPool (executeTask t w s))" for w'
    using that slotInvD(7,8) [OF i, of w'] by (auto simp: f)
qed

lemma releaseWorker_fields:
  "nextWorker (releaseWorker t s) = nextWorker s"
  "workerPool (releaseWorker t s) = workerPool s"
  "batchWorkerPool (releaseWorker t s) = batchWorkerPool s"
  "queue (releaseWorker t s) = queue s"
  "tasks (releaseWorker t s) = tasks s"
  "isPaused (releaseWorker t s) = isPaused s"
  "isDestroyed (releaseWorker t s) = isDestroyed s"
  "maxConcurrent (releaseWorker t s) = maxConcurrent s"
  "emitted (releaseWorker t s) = emitted s"
  "timers (releaseWorker t s) = timers s"
  "nextTaskId (releaseWorker t s) = nextTaskId s"
  "maxRetries (releaseWorker t s) = maxRetries s"
  "retryDelay (releaseWorker t s) = retryDelay s"
  "maxWorkers (releaseWorker t s) = maxWorkers s"
  "trackerCalls (releaseWorker t s) = trackerCalls s"
  "posted (releaseWorker t s) = posted s"
  by (simp_all add: releaseWorker_def split: option.splits)

lemma releaseWorker_slotInv:
  assumes i: "slotInv s"
  shows "slotInv (releaseWorker t s)"
proof (cases "map_of (activeWorkers s) t")
  case None
  then show ?thesis using i by (simp add: releaseWorker_def)
next
  case (Some w)
  let ?s' = "releaseWorker t s"
  have f: "activeWorkers ?s' = AList.delete t (activeWorkers s)"
    "workers ?s' = (workers s)(w := (workers s w)\<lparr>busy := False, wTaskId := None\<rparr>)"
    "busyWrites ?s' = (busyWrites s)(w := busyWrites s w @ [False])"
    using Some by (simp_all add: releaseWorker_def)
  note g = releaseWorker_fields
  have b: "busy (workers s w)" "wTaskId (workers s w) = Some t"
    using slotInvD(2,3) [OF i Some] by simp_all
  show ?thesis
  proof (rule slotInvI)
    show "distinct (map fst (activeWorkers ?s'))"
      using slotInvD(1) [OF i] by (simp add: f AList.distinct_delete)
    show "busy (workers ?s' w') \<and> wTaskId (workers ?s' w') = Some t'"
      if "map_of (activeWorkers ?s') t' = Some w'" for t' w'
    proof -
      from that have ne: "t' \<noteq> t" and m: "map_of (activeWorkers s) t' = Some w'"
        by (auto simp: f AList.delete_conv' split: if_splits)
      from slotInvD(3) [OF i m] b(2) ne have "w' \<noteq> w" by auto
      then show ?thesis using slotInvD(2,3) [OF i m] by (simp add: f)
    qed
    show "alternates False (busyWrites ?s' w')" for w'
      using slotInvD(4) [OF i, of w'] slotInvD(4) [OF i, of w] slotInvD(5) [OF i, of w] b(1)
      by (simp add: f alternates_snoc)
    show "lastWrite (busyWrites ?s' w') = busy (workers ?s' w')" for w'
      using slotInvD(5) [OF i, of w'] by (simp add: f)
    show "\<not> busy (workers ?s' w')" if "nextWorker ?s' \<le> w'" for w'
      using that slotInvD(6) [OF i, of w'] by (simp add: f g)
    show "w' < nextWorker ?s'"
      if "w' \<in> set (workerPool ?s') \<union> set (batchWorkerPool ?s')" for w'
      using that slotInvD(7,8) [OF i, of w'] by (auto simp: g)
  qed
qed


lemma loopPass_slotInv: "slotInv s \<Longrightarrow> slotInv (snd (loopPass s))"
proof (erule loopPass_rule)
  fix s w s2
  assume i: "slotInv s"
    and g: "getAvailableWorker (tType (tasks s (hd (queue s)))) (s\<lparr>queue := tl (queue s)\<rparr>) = Inr (Some w, s2)"
  from i have "slotInv (s\<lparr>queue := tl (queue s)\<rparr>)" by simp
  from getAvailableWorker_slotInv [OF g this]
  show "slotInv (executeTask (hd (queue s)) w s2)"
    by (simp add: executeTask_slotInv)
next
  fix s s2
  assume i: "slotInv s"
    and g: "getAvailableWorker (tType (tasks s (hd (queue s)))) (s\<lparr>queue := tl (queue s)\<rparr>) = Inr (None, s2)"
  from getAvailableWorker_None [OF g] i
  show "slotInv (s2\<lparr>queue := hd (queue s) # queue s2\<rparr>)" by simp
next
  fix s :: queueState and e :: queueError
  assume "slotInv s"
  then show "slotInv (s\<lparr>queue := tl (queue s)\<rparr>)" by simp
qed

lemma processQueue_slotInv: "slotInv s \<Longrightarrow> slotInv (processQueue s)"
  by (rule scheduling_rule(1) [where I = slotInv]) (simp_all add: loopPass_slotInv)

lemma resumeLoop_slotInv: "slotInv s \<Longrightarrow> slotInv (resumeLoop s)"
  by (rule scheduling_rule(2) [where I = slotInv]) (simp_all add: loopPass_slotInv)

lemma handleTaskError_slotInv: "slotInv s \<Longrightarrow> slotInv (handleTaskError t s)"
  by (simp add: handleTaskError_def Let_def processQueue_slotInv releaseWorker_slotInv)

lemma requeue_slotInv: "slotInv s \<Longrightarrow> slotInv (requeue t s)"
  by (simp add: requeue_def Let_def processQueue_slotInv)

lemma handleProgress_slotInv: "slotInv s \<Longrightarrow> slotInv (handleProgress t p s)"
  by (simp add: handleProgress_def)

lemma slotInv_cong:
  assumes "activeWorkers s' = activeWorkers s" "busyWrites s' = busyWrites s"
    "nextWorker s' = nextWorker s" "workerPool s' = workerPool s"
    "batchWorkerPool s' = batchWorkerPool s"
    "\<And>w. busy (workers s' w) = busy (workers s w)"
    "\<And>w. wTaskId (workers s' w) = wTaskId (workers s w)"
  shows "slotInv s' = slotInv s"
  by (simp add: slotInv_def assms)

lemma bumpTasksProcessed_slotInv: "slotInv (bumpTasksProcessed t s) = slotInv s"
  by (rule slotInv_cong) (simp_all add: bumpTasksProcessed_def split: option.splits)

lemma handleSuccess_slotInv: "slotInv s \<Longrightarrow> slotInv (handleSuccess t s)"
  by (simp add: handleSuccess_def Let_def processQueue_slotInv releaseWorker_slotInv
      bumpTasksProcessed_slotInv)

lemma handleCancellation_slotInv: "slotInv s \<Longrightarrow> slotInv (handleCancellation t s)"
  by (simp add: handleCancellation_def Let_def processQueue_slotInv releaseWorker_slotInv)

lemma handleWorkerMessage_slotInv: "slotInv s \<Longrightarrow> slotInv (handleWorkerMessage w msg s)"
  by (simp add: handleWorkerMessage_def handleProgress_slotInv handleSuccess_slotInv
      handleCancellation_slotInv handleTaskError_slotInv
      split: option.splits workerEventType.splits)

lemma slotInv_shrink_pools:
  assumes i: "slotInv s"
  shows "slotInv (s\<lparr>workerPool := remove1 w (workerPool s)\<rparr>)"
    and "slotInv (s\<lparr>batchWorkerPool := remove1 w (batchWorkerPool s)\<rparr>)"
proof -
  have sub: "w' \<in> set (remove1 w xs) \<Longrightarrow> w' \<in> set xs" for w' :: nat and xs
    using set_remove1_subset [of w xs] by blast
  show "slotInv (s\<lparr>workerPool := remove1 w (workerPool s)\<rparr>)"
  proof (rule slotInvI)
    fix w'
    assume "w' \<in> set (workerPool (s\<lparr>workerPool := remove1 w (workerPool s)\<rparr>)) \<union>
                 set (batchWorkerPool (s\<lparr>workerPool := remove1 w (workerPool s)\<rparr>))"
    then have "w' \<in> set (workerPool s) \<or> w' \<in> set (batchWorkerPool s)"
      using sub [of w' "workerPool s"] by auto
    then show "w' < nextWorker (s\<lparr>workerPool := remove1 w (workerPool s)\<rparr>)"
      using slotInvD(7,8) [OF i, of w'] by auto
  qed (use slotInvD [OF i] in simp_all)
  show "slotInv (s\<lparr>batchWorkerPool := remove1 w (batchWorkerPool s)\<rparr>)"
  proof (rule slotInvI)
    fix w'
    assume "w' \<in> set (workerPool (s\<lparr>batchWorkerPool := remove1 w (batchWorkerPool s)\<rparr>)) \<union>
                 set (batchWorkerPool (s\<lparr>batchWorkerPool := remove1 w (batchWorkerPool s)\<rparr>))"
    then have "w' \<in> set (workerPool s) \<or> w' \<in> set (batchWorkerPool s)"
      using sub [of w' "batchWorkerPool s"] by auto
    then show "w' < nextWorker (s\<lparr>batchWorkerPool := remove1 w (batchWorkerPool s)\<rparr>)"
      using slotInvD(7,8) [OF i, of w'] by auto
  qed (use slotInvD [OF i] in simp_all)
qed

lemma replaceWorker_slotInv:
  assumes "slotInv s"
  shows "slotInv (replaceWorker w s)"
proof (cases "w \<in> set (poolOf (wType (workers s w)) s)")
  case False
  then show ?thesis using assms by (simp add: replaceWorker_def Let_def)
next
  case True
  let ?s1 = "s\<lparr>terminated := terminated s @ [w]\<rparr>"
  let ?s2 = "if wType (workers s w) = Batch
             then ?s1\<lparr>batchWorkerPool := remove1 w (batchWorkerPool ?s1)\<rparr>
             else ?s1\<lparr>workerPool := remove1 w (workerPool ?s1)\<rparr>"
  have i1: "slotInv ?s1" using assms by simp
  have i2: "slotInv ?s2"
    using slotInv_shrink_pools [OF i1, of w] by simp
  have r: "replaceWorker w s =
             (case createWorker (wType (workers s w)) ?s2 of Inl e \<Rightarrow> ?s2 | Inr (w', s3) \<Rightarrow> s3)"
    using True by (simp add: replaceWorker_def Let_def)
  show ?thesis
  proof (cases "createWorker (wType (workers s w)) ?s2")
    case (Inl e)
    then show ?thesis using i2 r by simp
  next
    case (Inr p)
    obtain w' s3 where p: "p = (w', s3)" by (cases p)
    from createWorker_slotInv [OF Inr [unfolded p] i2] r Inr p show ?thesis by simp
  qed
qed

lemma handleWorkerError_slotInv: "slotInv s \<Longrightarrow> slotInv (handleWorkerError w isEvent s)"
  by (simp add: handleWorkerError_def Let_def replaceWorker_slotInv handleTaskError_slotInv
      split: option.splits)

lemma cancelTask_slotInv: "slotInv s \<Longrightarrow> slotInv (snd (cancelTask t s))"
  by (simp add: cancelTask_def Let_def split: option.splits)

lemma fold_slotInv:
  "(\<And>x st. slotInv (f x st) = slotInv st) \<Longrightarrow> slotInv (fold f xs s) = slotInv s"
  by (induction xs arbitrary: s) simp_all

lemma cancelAll_slotInv: "slotInv s \<Longrightarrow> slotInv (cancelAll s)"
  by (simp add: cancelAll_def Let_def fold_slotInv split_def)

lemma pause_slotInv: "slotInv s \<Longrightarrow> pause s = Inr s' \<Longrightarrow> slotInv s'"
  by (auto simp: pause_def split: if_splits)

lemma resume_slotInv: "slotInv s \<Longrightarrow> resume s = Inr s' \<Longrightarrow> slotInv s'"
  by (auto simp: resume_def processQueue_slotInv split: if_splits)

lemma destroy_slotInv: "slotInv s \<Longrightarrow> slotInv (destroy s)"
  by (simp add: destroy_def Let_def cancelAll_slotInv)

lemma teardown_slotInv: "slotInv s \<Longrightarrow> slotInv (teardown s)"
  by (simp add: teardown_def) (simp add: slotInv_def)

lemma submit_slotInv: "slotInv s \<Longrightarrow> submit typ files options s = Inr (t, s') \<Longrightarrow> slotInv s'"
  by (auto simp: submit_def Let_def processQueue_slotInv split: if_splits)

lemma addFile_slotInv: "slotInv s \<Longrightarrow> addFile file options s = Inr (t, s') \<Longrightarrow> slotInv s'"
  by (auto simp: addFile_def submit_slotInv split: if_splits option.splits)

lemma addBatch_slotInv: "slotInv s \<Longrightarrow> addBatch files options s = Inr (t, s') \<Longrightarrow> slotInv s'"
  by (auto simp: addBatch_def submit_slotInv split: if_splits option.splits)

lemma fire_slotInv: "slotInv s \<Longrightarrow> slotInv (fire tm s)"
  by (simp add: fire_def requeue_slotInv teardown_slotInv split: timer.splits)

lemma step_slotInv: "slotInv s \<Longrightarrow> slotInv (step a s)"
proof (cases a)
  case (AddFile f options)
  then show "slotInv s \<Longrightarrow> ?thesis"
    by (auto split: sum.splits dest: addFile_slotInv)
next
  case (AddBatch fs options)
  then show "slotInv s \<Longrightarrow> ?thesis"
    by (auto split: sum.splits dest: addBatch_slotInv)
next
  case (TimerFires i)
  then show "slotInv s \<Longrightarrow> ?thesis"
    by (simp add: fire_slotInv dropTimer_def)
next
  case Pause
  then show "slotInv s \<Longrightarrow> ?thesis"
    by (auto split: sum.splits dest: pause_slotInv)
next
  case Resume
  then show "slotInv s \<Longrightarrow> ?thesis"
    by (auto split: sum.splits dest: resume_slotInv)
qed (simp_all add: handleWorkerMessage_slotInv handleWorkerError_slotInv cancelTask_slotInv
      cancelAll_slotInv destroy_slotInv resumeLoop_slotInv)

lemma addWorker_slotInv:
  assumes "slotInv s"
  shows "slotInv (addWorker typ s)"
proof (cases "createWorker typ s")
  case (Inl e)
  then show ?thesis using assms by (simp add: addWorker_def)
next
  case (Inr p)
  obtain w s1 where p: "p = (w, s1)" by (cases p)
  from createWorker_slotInv [OF Inr [unfolded p] assms] Inr p show ?thesis
    by (simp add: addWorker_def)
qed

lemma addWorker_maxWorkers: "maxWorkers (addWorker typ s) = maxWorkers s"
  by (auto simp: addWorker_def createWorker_def Let_def split: sum.splits if_splits)

lemma funpow_slotInv:
  "slotInv s \<Longrightarrow> slotInv (((\<lambda>st. addWorker Batch (addWorker Single st)) ^^ n) s)"
  by (induction n) (simp_all add: addWorker_slotInv)

lemma newQueue_slotInv: "slotInv (newQueue options)"
  unfolding newQueue_def initializeWorkerPools_def
  by (rule funpow_slotInv) (simp add: slotInv_def)

lemma reachable_slotInv: "reachable s \<Longrightarrow> slotInv s"
  by (induction rule: reachable.induct) (simp_all add: newQueue_slotInv step_slotInv)

subsection \<open>What scheduling leaves unchanged; the retry policy\<close>

lemma getAvailableWorker_Inl: "getAvailableWorker typ s = Inl e \<Longrightarrow> isDestroyed s"
  by (auto simp: getAvailableWorker_def createWorker_def Let_def
      split: option.splits if_splits sum.splits)

lemma getAvailableWorker_fields:
  assumes "getAvailableWorker typ s = Inr (wo, s')"
  shows "activeWorkers s' = activeWorkers s" "queue s' = queue s" "tasks s' = tasks s"
    "isPaused s' = isPaused s" "isDestroyed s' = isDestroyed s"
    "maxConcurrent s' = maxConcurrent s" "emitted s' = emitted s"
    "trackerCalls s' = trackerCalls s" "posted s' = posted s" "timers s' = timers s"
    "nextTaskId s' = nextTaskId s" "maxRetries s' = maxRetries s"
    "retryDelay s' = retryDelay s" "maxWorkers s' = maxWorkers s"
proof -
  have "s' = s \<or> (\<exists>w. createWorker typ s = Inr (w, s'))"
    using assms
    by (auto simp: getAvailableWorker_def Let_def split: option.splits if_splits sum.splits)
  then show "activeWorkers s' = activeWorkers s" "queue s' = queue s" "tasks s' = tasks s"
    "isPaused s' = isPaused s" "isDestroyed s' = isDestroyed s"
    "maxConcurrent s' = maxConcurrent s" "emitted s' = emitted s"
    "trackerCalls s' = trackerCalls s" "posted s' = posted s" "timers s' = timers s"
    "nextTaskId s' = nextTaskId s" "maxRetries s' = maxRetries s"
    "retryDelay s' = retryDelay s" "maxWorkers s' = maxWorkers s"
    by (auto dest: createWorker_fields)
qed

lemma executeTask_more_fields:
  "totalTasksFailed (executeTask t w s) = totalTasksFailed s"
  "trackerCalls (executeTask t w s) = trackerCalls s @ [UpdateProgress t 0 StartingConversion]"
  by (simp_all add: executeTask_def Let_def track_def postToWorker_def)

lemma createWorker_more_fields:
  "createWorker typ s = Inr (w, s') \<Longrightarrow> totalTasksFailed s' = totalTasksFailed s"
  by (auto simp: createWorker_def Let_def split: if_splits)

lemma getAvailableWorker_failed:
  "getAvailableWorker typ s = Inr (wo, s') \<Longrightarrow> totalTasksFailed s' = totalTasksFailed s"
  by (auto simp: getAvailableWorker_def Let_def createWorker_more_fields
      split: option.splits if_splits sum.splits)

lemma loopPass_untouched: "untouched s (snd (loopPass s))"
proof (rule loopPass_rule [where I = "untouched s"])
  show "untouched s s" by (simp add: untouched_def)
next
  fix x w s2
  assume u: "untouched s x"
    and g: "getAvailableWorker (tType (tasks x (hd (queue x)))) (x\<lparr>queue := tl (queue x)\<rparr>) = Inr (Some w, s2)"
  show "untouched s (executeTask (hd (queue x)) w s2)"
    using u getAvailableWorker_fields [OF g] getAvailableWorker_failed [OF g]
    by (simp add: untouched_def executeTask_fields executeTask_more_fields)
next
  fix x s2
  assume u: "untouched s x"
    and g: "getAvailableWorker (tType (tasks x (hd (queue x)))) (x\<lparr>queue := tl (queue x)\<rparr>) = Inr (None, s2)"
  show "untouched s (s2\<lparr>queue := hd (queue x) # queue s2\<rparr>)"
    using u getAvailableWorker_None [OF g] by (simp add: untouched_def)
next
  fix x :: queueState and e :: queueError
  assume "untouched s x"
  then show "untouched s (x\<lparr>queue := tl (queue x)\<rparr>)" by (simp add: untouched_def)
qed

lemma processQueue_untouched: "untouched s (processQueue s)"
  using loopPass_untouched [of s] by (simp add: processQueue_def suspendLoop_def untouched_def)



lemma handleTaskError_retry:
  assumes "retries (tasks s t) + 1 < maxRetries s"
  shows "handleTaskError t s =
     track (UpdateProgress t 0 (Retrying (retries (tasks s t) + 2) (maxRetries s)))
       (s\<lparr>tasks := (tasks s)(t := (tasks s t)\<lparr>retries := retries (tasks s t) + 1\<rparr>),
          timers := timers s @ [RequeueTimer (retryDelay s * (retries (tasks s t) + 1)) t]\<rparr>)"
  using assms by (simp add: handleTaskError_def Let_def track_def)


lemma handleTaskError_config:
  "maxRetries (handleTaskError t s) = maxRetries s \<and> retryDelay (handleTaskError t s) = retryDelay s"
proof (cases "retries (tasks s t) + 1 < maxRetries s")
  case True
  then show ?thesis by (simp add: handleTaskError_retry track_def)
next
  case False
  let ?s5 = "emit (EvError t (retries (tasks s t) + 1))
      (releaseWorker t (track (FailTask t)
        (s\<lparr>tasks := (tasks s)(t := (tasks s t)\<lparr>retries := retries (tasks s t) + 1\<rparr>),
           totalTasksFailed := totalTasksFailed s + 1\<rparr>)))"
  have h: "handleTaskError t s = processQueue ?s5"
    using False by (simp add: handleTaskError_def Let_def)
  show ?thesis
    using processQueue_untouched [of ?s5]
    by (simp add: h untouched_def emit_def track_def releaseWorker_fields)
qed


subsection \<open>The stable sort of the pending list\<close>







subsection \<open>The pending list stays in serving order\<close>

lemma pendingInOrder_cong:
  assumes "queue s' = queue s" "nextTaskId s' = nextTaskId s"
    "\<And>t. priority (tasks s' t) = priority (tasks s t)"
  shows "pendingInOrder s' = pendingInOrder s"
proof -
  have "servedBefore s' = servedBefore s"
    by (intro ext) (simp add: servedBefore_def assms)
  then show ?thesis by (simp add: pendingInOrder_def assms)
qed

lemma pendingInOrder_frame [simp]:
  "pendingInOrder (emit e s) = pendingInOrder s"
  "pendingInOrder (track c s) = pendingInOrder s"
  "pendingInOrder (postToWorker w cmd s) = pendingInOrder s"
  "pendingInOrder (s\<lparr>timers := tm\<rparr>) = pendingInOrder s"
  "pendingInOrder (s\<lparr>isPaused := b\<rparr>) = pendingInOrder s"
  "pendingInOrder (s\<lparr>isDestroyed := b\<rparr>) = pendingInOrder s"
  "pendingInOrder (s\<lparr>totalTasksProcessed := n\<rparr>) = pendingInOrder s"
  "pendingInOrder (s\<lparr>totalTasksFailed := n\<rparr>) = pendingInOrder s"
  "pendingInOrder (s\<lparr>totalTasksCancelled := n\<rparr>) = pendingInOrder s"
  "pendingInOrder (s\<lparr>terminated := ws\<rparr>) = pendingInOrder s"
  "pendingInOrder (s\<lparr>suspendedCalls := n\<rparr>) = pendingInOrder s"
  "pendingInOrder (s\<lparr>workerPool := wp\<rparr>) = pendingInOrder s"
  "pendingInOrder (s\<lparr>batchWorkerPool := wp\<rparr>) = pendingInOrder s"
  "pendingInOrder (s\<lparr>tasks := (tasks s)(t := (tasks s t)\<lparr>retries := r\<rparr>)\<rparr>) = pendingInOrder s"
  "pendingInOrder (s\<lparr>tasks := (tasks s)(t := (tasks s t)\<lparr>status := st\<rparr>)\<rparr>) = pendingInOrder s"
  by (rule pendingInOrder_cong; simp add: emit_def track_def postToWorker_def)+


lemma releaseWorker_pendingInOrder [simp]:
  "pendingInOrder (releaseWorker t s) = pendingInOrder s"
  by (rule pendingInOrder_cong) (simp_all add: releaseWorker_fields)

lemma bumpTasksProcessed_pendingInOrder [simp]:
  "pendingInOrder (bumpTasksProcessed t s) = pendingInOrder s"
  by (rule pendingInOrder_cong) (simp_all add: bumpTasksProcessed_def split: option.splits)

lemma executeTask_pendingInOrder [simp]:
  "pendingInOrder (executeTask t w s) = pendingInOrder s"
  by (rule pendingInOrder_cong) (simp_all add: executeTask_fields)



























subsection \<open>Scheduling serves the head of the list; submission registers the task\<close>




subsection \<open>The retry count of a task counts the errors reported for it\<close>

lemma keepsRetries_refl [simp]: "keepsRetries s s"
  by (simp add: keepsRetries_def)


lemma keepsRetriesI:
  assumes "maxRetries s' = maxRetries s" "retryDelay s' = retryDelay s"
    "nextTaskId s' = nextTaskId s" "\<And>t. retries (tasks s' t) = retries (tasks s t)"
  shows "keepsRetries s s'"
  using assms by (simp add: keepsRetries_def)






lemma releaseWorker_keepsRetries: "keepsRetries s (releaseWorker t s)"
  by (rule keepsRetriesI) (simp_all add: releaseWorker_fields)

lemma bumpTasksProcessed_keepsRetries: "keepsRetries s (bumpTasksProcessed t s)"
  by (rule keepsRetriesI) (simp_all add: bumpTasksProcessed_def split: option.splits)


























subsection \<open>The claims about the queue\<close>

lemma reachable_run: "reachable s \<Longrightarrow> reachable (run acts s)"
  unfolding run_def
  by (induction acts arbitrary: s) (simp_all add: reachable.reach_step)


lemma slots_distinct:
  assumes "slotInv s"
  shows "distinct (map snd (activeWorkers s))"
proof -
  have d: "distinct (map fst (activeWorkers s))" by (rule slotInvD(1) [OF assms])
  then have da: "distinct (activeWorkers s)" by (simp add: distinct_map)
  have "inj_on snd (set (activeWorkers s))"
  proof (rule inj_onI)
    fix p q
    assume pin: "p \<in> set (activeWorkers s)" and qin: "q \<in> set (activeWorkers s)"
      and e: "snd p = snd q"
    from pin have "(fst p, snd p) \<in> set (activeWorkers s)" by simp
    with d have mp: "map_of (activeWorkers s) (fst p) = Some (snd p)" by simp
    from qin have "(fst q, snd q) \<in> set (activeWorkers s)" by simp
    with d have mq: "map_of (activeWorkers s) (fst q) = Some (snd q)" by simp
    from slotInvD(3) [OF assms mp] slotInvD(3) [OF assms mq] e have "fst p = fst q" by simp
    with e show "p = q" by (simp add: prod_eq_iff)
  qed
  with da show ?thesis by (simp add: distinct_map)
qed

text \<open>A pass that hands out a task hands it to a worker that is not busy.\<close>

lemma loopPass_dispatch:
  assumes i: "slotInv s" and p: "fst (loopPass s)"
  shows "\<exists>w. \<not> busy (workers s w) \<and>
             map fst (posted (snd (loopPass s))) = map fst (posted s) @ [w] \<and>
             busy (workers (snd (loopPass s)) w) \<and>
             wTaskId (workers (snd (loopPass s)) w) = Some (hd (queue s)) \<and>
             map_of (activeWorkers (snd (loopPass s))) (hd (queue s)) = Some w"
proof -
  let ?t = "hd (queue s)"
  let ?s1 = "s\<lparr>queue := tl (queue s)\<rparr>"
  from p have c: "loopCondition s"
    by (cases "loopCondition s") (simp_all add: loopPass_def)
  from p c obtain w s2 where g: "getAvailableWorker (tType (tasks ?s1 ?t)) ?s1 = Inr (Some w, s2)"
    by (auto simp: loopPass_def Let_def split: sum.splits option.splits)
  then have l: "loopPass s = (True, executeTask ?t w s2)"
    using c by (simp add: loopPass_def Let_def)
  have i1: "slotInv ?s1" using i by simp
  have free: "\<not> busy (workers s w)"
    using getAvailableWorker_Some [OF g]
  proof
    assume "s2 = ?s1 \<and> w \<in> set (poolOf (tType (tasks ?s1 ?t)) ?s1) \<and> \<not> busy (workers ?s1 w)"
    then show ?thesis by simp
  next
    assume "createWorker (tType (tasks ?s1 ?t)) ?s1 = Inr (w, s2)"
    from createWorker_fields(1) [OF this] have "w = nextWorker s" by simp
    then show ?thesis using slotInvD(6) [OF i, of w] by simp
  qed
  have po: "posted s2 = posted s"
    using getAvailableWorker_fields(9) [OF g] by simp
  have "map fst (posted (executeTask ?t w s2)) = map fst (posted s2) @ [w]"
    by (simp add: executeTask_def Let_def track_def postToWorker_def)
  with free po show ?thesis
    by (intro exI [of _ w]) (simp add: l executeTask_fields AList.update_conv')
qed

text \<open>
  C2: in every state a queue can reach, the writes to each worker's \<open>busy\<close> flag made
  by \<open>executeTask\<close> and \<open>releaseWorker\<close> alternate, starting with \<open>true\<close>, and the
  flag has the value written last (\<open>false\<close> when nothing was written); a worker
  held by an entry of \<open>activeWorkers\<close> is busy and carries that entry's task, and no
  worker is held by two entries; a pass of the scheduling loop that hands out a task
  posts it to a worker that was not busy, and leaves that worker busy, carrying the
  task, and entered in \<open>activeWorkers\<close>; \<open>releaseWorker\<close> clears the flag, the task and
  the entry.
\<close>

theorem worker_slots:
  assumes "reachable s"
  shows "(\<forall>w. alternates False (busyWrites s w) \<and>
              lastWrite (busyWrites s w) = busy (workers s w)) \<and>
         (\<forall>(t, w) \<in> set (activeWorkers s). busy (workers s w) \<and> wTaskId (workers s w) = Some t) \<and>
         distinct (map snd (activeWorkers s)) \<and>
         (fst (loopPass s) \<longrightarrow>
            (\<exists>w. \<not> busy (workers s w) \<and>
                 map fst (posted (snd (loopPass s))) = map fst (posted s) @ [w] \<and>
                 busy (workers (snd (loopPass s)) w) \<and>
                 wTaskId (workers (snd (loopPass s)) w) = Some (hd (queue s)) \<and>
                 map_of (activeWorkers (snd (loopPass s))) (hd (queue s)) = Some w)) \<and>
         (\<forall>t w. map_of (activeWorkers s) t = Some w \<longrightarrow>
                \<not> busy (workers (releaseWorker t s) w) \<and>
                wTaskId (workers (releaseWorker t s) w) = None \<and>
                map_of (activeWorkers (releaseWorker t s)) t = None)"
proof -
  have i: "slotInv s" using assms by (rule reachable_slotInv)
  have a: "\<forall>w. alternates False (busyWrites s w) \<and>
              lastWrite (busyWrites s w) = busy (workers s w)"
    using slotInvD(4,5) [OF i] by simp
  have b: "\<forall>(t, w) \<in> set (activeWorkers s). busy (workers s w) \<and> wTaskId (workers s w) = Some t"
  proof (clarify)
    fix t w
    assume "(t, w) \<in> set (activeWorkers s)"
    then have "map_of (activeWorkers s) t = Some w"
      using slotInvD(1) [OF i] by simp
    then show "busy (workers s w) \<and> wTaskId (workers s w) = Some t"
      using slotInvD(2,3) [OF i] by simp
  qed
  have c: "distinct (map snd (activeWorkers s))" by (rule slots_distinct [OF i])
  have d: "fst (loopPass s) \<longrightarrow>
            (\<exists>w. \<not> busy (workers s w) \<and>
                 map fst (posted (snd (loopPass s))) = map fst (posted s) @ [w] \<and>
                 busy (workers (snd (loopPass s)) w) \<and>
                 wTaskId (workers (snd (loopPass s)) w) = Some (hd (queue s)) \<and>
                 map_of (activeWorkers (snd (loopPass s))) (hd (queue s)) = Some w)"
    using loopPass_dispatch [OF i] by blast
  have f: "\<forall>t w. map_of (activeWorkers s) t = Some w \<longrightarrow>
                \<not> busy (workers (releaseWorker t s) w) \<and>
                wTaskId (workers (releaseWorker t s) w) = None \<and>
                map_of (activeWorkers (releaseWorker t s)) t = None"
    by (simp add: releaseWorker_def AList.delete_conv')
  from a b c d f show ?thesis by blast
qed




subsection \<open>Concrete runs\<close>

lemmas queue_defs =
  emit_def track_def postToWorker_def poolOf_def createWorker_def getAvailableWorker_def
  executeTask_def processQueue_def releaseWorker_def handleTaskError_def requeue_def
  handleProgress_def bumpTasksProcessed_def handleSuccess_def handleCancellation_def
  handleWorkerMessage_def replaceWorker_def handleWorkerError_def cancelCommandFor_def
  cancelTask_def cancelAll_def pause_def resume_def destroy_def teardown_def orElse_def
  orElseString_def lowerChar_def toLowerCase_def validTargetTypes_def sortByPriority_def
  submit_def addFile_def addBatch_def addWorker_def initializeWorkerPools_def newQueue_def
  fire_def dropTimer_def run_def defaultOptions_def photo_def noOptions_def Let_def
  loopCondition_def loopPass_def suspendLoop_def resumeLoop_def

lemma funpow2: "(f ^^ 2) s = f (f s)"
  by (simp add: numeral_2_eq_2)



lemma afterResume:
  "let s = run resumedRun (newQueue defaultOptions)
   in queue s = [2, 0] \<and> activeWorkers s = [(1, 0)] \<and> fst (loopPass s) \<and>
      queue (snd (loopPass s)) = [0] \<and>
      map (\<lambda>t. priority (tasks s t)) [1, 2, 0] = [5, 5, 1] \<and>
      startedTasks (trackerCalls s) = [1] \<and>
      startedTasks (trackerCalls (snd (loopPass s))) = [1, 2] \<and>
      map fst (posted s) = [0] \<and> map fst (posted (snd (loopPass s))) = [0, 2] \<and>
      busy (workers s 0) \<and> \<not> busy (workers s 2) \<and> busyWrites s 0 = [True]"
  by (simp add: queue_defs funpow2 resumedRun_def pausedRun_def urgent_def)

theorem worker_slots_witness:
  "reachable (run resumedRun (newQueue defaultOptions)) \<and>
   activeWorkers (run resumedRun (newQueue defaultOptions)) = [(1, 0)] \<and>
   busy (workers (run resumedRun (newQueue defaultOptions)) 0) \<and>
   busyWrites (run resumedRun (newQueue defaultOptions)) 0 = [True] \<and>
   alternates False (busyWrites (run resumedRun (newQueue defaultOptions)) 0) \<and>
   fst (loopPass (run resumedRun (newQueue defaultOptions))) \<and>
   \<not> busy (workers (run resumedRun (newQueue defaultOptions)) 2) \<and>
   map fst (posted (snd (loopPass (run resumedRun (newQueue defaultOptions))))) = [0, 2] \<and>
   busy (workers (snd (loopPass (run resumedRun (newQueue defaultOptions)))) 2) \<and>
   \<not> busy (workers (releaseWorker 1 (run resumedRun (newQueue defaultOptions))) 0)"
proof -
  let ?s = "run resumedRun (newQueue defaultOptions)"
  have r: "reachable ?s"
    by (intro reachable_run reachable.reach_start)
  have m: "map_of (activeWorkers ?s) 1 = Some 0"
    using afterResume by (simp add: Let_def)
  from worker_slots [OF r] afterResume r m show ?thesis
    by (auto simp: Let_def)
qed



text \<open>
  C3 at a concrete input. On a queue with one slot, task 0 fails once and is put back by
  its retry timer while its old entry in \<open>activeWorkers\<close> still exists; the task is
  cancelled while pending (\<open>cancelled\<close> is emitted, the task is off the list). A second
  \<open>cancelTask\<close> for this task, now terminal, returns true and posts \<open>cancel\<close> to worker
  0; that worker's \<open>cancelled\<close> message makes the queue emit a second \<open>cancelled\<close>
  event for the task.
\<close>

theorem cancelTask_true_for_cancelled_task:
  "let s = run stuckRun (newQueue singleSlot)
   in emitted s = [EvCancelled 0] \<and> queue s = [] \<and> activeWorkers s = [(0, 0)] \<and>
      fst (cancelTask 0 s) \<and>
      map snd (posted (snd (cancelTask 0 s))) =
        [Convert [\<lparr>fname = Some ''a.heic'', fsize = Some 2000000\<rparr>] ''jpeg'' 90, Cancel] \<and>
      emitted (step (WorkerMessage 0 MsgCancelled) (snd (cancelTask 0 s))) =
        [EvCancelled 0, EvCancelled 0]"
  by (simp add: queue_defs funpow2 stuckRun_def requeuedOnSingleSlot_def singleSlot_def)





text \<open>
  The worker that acknowledges a cancelled batch is released by \<open>handleCancellation\<close>,
  and the call of \<open>processQueue\<close> that follows hands the next pending batch to it.
\<close>

lemma next_batch_goes_to_cancelled_worker:
  "posted (run batchHandover (newQueue singleSlot)) =
     [(1, ConvertBatch [\<lparr>fname = Some ''a.heic'', fsize = Some 2000000\<rparr>,
                        \<lparr>fname = Some ''b.heic'', fsize = Some 3000000\<rparr>] ''jpeg'' 90),
      (1, CancelBatch),
      (1, ConvertBatch [\<lparr>fname = Some ''d.heic'', fsize = Some 1000000\<rparr>] ''jpeg'' 90)]"
  by (simp add: queue_defs funpow2 batchHandover_def twoPhotos_def onePhoto_def singleSlot_def)

end
